theory Spec2Isabelle
  imports Main
begin

section \<open>Scalar values\<close>

text \<open>
  An instant (Go's \<open>time.Time\<close>) is an integer count of time units since the epoch;
  the package never looks inside one. An \<open>error\<close> is its message.
\<close>

type_synonym time = int
type_synonym error = string

text \<open>\<open>sql.NullString\<close>: the resolved zero value of a soft-delete field.\<close>

record NullString =
  NullString_String :: string
  NullString_Valid :: bool

text \<open>
  The dynamic values (\<open>interface{}\<close>) that end up in clauses: the zero value of the
  exclusion predicate, the deletion time, the actor taken from the context, and
  primary-key values (a composite key is a row of values).
\<close>

datatype val =
    VNullString NullString
  | VTime time
  | VString string
  | VInt int
  | VRow "val list"

section \<open>The wrapper type \<open>DeletedAt\<close>\<close>

text \<open>\<open>type DeletedAt sql.NullTime\<close>: a time and a validity flag.\<close>

record DeletedAt =
  Time :: time
  Valid :: bool


text \<open>
  \<open>UnmarshalJSON\<close> has a pointer receiver: the model takes the wrapper before the call
  and returns the wrapper after it, with the error (\<open>None\<close> is Go's \<open>nil\<close>). The decoder
  \<open>json.Unmarshal(b, &n.Time)\<close> is the parameter \<open>json_Unmarshal\<close>: from the bytes and
  the time stored so far it gives the time stored afterwards and the error.
\<close>

definition UnmarshalJSON ::
  "(string \<Rightarrow> time \<Rightarrow> time \<times> error option) \<Rightarrow> string \<Rightarrow> DeletedAt \<Rightarrow> DeletedAt \<times> error option" where
  "UnmarshalJSON json_Unmarshal b n =
     (if b = ''null'' then (n\<lparr>Valid := False\<rparr>, None)
      else
        (let (t, err) = json_Unmarshal b (Time n);
             n1 = n\<lparr>Time := t\<rparr>;
             n2 = (if err = None then n1\<lparr>Valid := True\<rparr> else n1)
         in (n2, err)))"

section \<open>Schema fields and the zero-value tag\<close>

text \<open>
  Of a \<open>schema.Field\<close> the package reads the column name, the tag settings and, through
  the field's schema, the sibling fields by name (\<open>f.Schema.LookUpField\<close>).
\<close>

datatype Field =
  SchemaField (DBName: string) (TagSettings: "string \<Rightarrow> string option")
    (Schema_LookUpField: "string \<Rightarrow> Field option")

text \<open>
  \<open>parseZeroValueTag\<close>. The date parser \<open>now.Parse\<close> is a library function; only whether
  it returns an error matters, so it is the predicate \<open>now_Parse\<close> (true: parsed).
\<close>

definition parseZeroValueTag :: "(string \<Rightarrow> bool) \<Rightarrow> Field \<Rightarrow> NullString" where
  "parseZeroValueTag now_Parse f =
     (case TagSettings f ''ZEROVALUE'' of
        Some v \<Rightarrow>
          (if now_Parse v then \<lparr>NullString_String = v, NullString_Valid = True\<rparr>
           else \<lparr>NullString_String = '''', NullString_Valid = False\<rparr>)
      | None \<Rightarrow> \<lparr>NullString_String = '''', NullString_Valid = False\<rparr>)"

text \<open>
  The three clause structs \<open>SoftDeleteQueryClause\<close>, \<open>SoftDeleteUpdateClause\<close> and
  \<open>SoftDeleteDeleteClause\<close> have the same fields, and the source converts one into the
  other; one record stands for all three.
\<close>

record SoftDeleteClause =
  ZeroValue :: NullString
  Field :: Field
  ActorField :: "Field option"

type_synonym SoftDeleteQueryClause = SoftDeleteClause
type_synonym SoftDeleteUpdateClause = SoftDeleteClause
type_synonym SoftDeleteDeleteClause = SoftDeleteClause

text \<open>
  \<open>QueryClauses\<close>, \<open>UpdateClauses\<close> and \<open>DeleteClauses\<close> build the clause of a field in
  the same way. Reading a missing key of a Go map gives the empty string.
\<close>

definition softDeleteClause :: "(string \<Rightarrow> bool) \<Rightarrow> Field \<Rightarrow> SoftDeleteClause" where
  "softDeleteClause now_Parse f =
     (let sd = \<lparr>ZeroValue = parseZeroValueTag now_Parse f, Field = f, ActorField = None\<rparr>;
          v = (case TagSettings f ''ACTORFIELD'' of Some v \<Rightarrow> v | None \<Rightarrow> '''')
      in if length v \<ge> 1 then sd\<lparr>ActorField := Schema_LookUpField f v\<rparr> else sd)"

definition QueryClauses :: "(string \<Rightarrow> bool) \<Rightarrow> Field \<Rightarrow> SoftDeleteQueryClause list" where
  "QueryClauses now_Parse f = [softDeleteClause now_Parse f]"

definition UpdateClauses :: "(string \<Rightarrow> bool) \<Rightarrow> Field \<Rightarrow> SoftDeleteUpdateClause list" where
  "UpdateClauses now_Parse f = [softDeleteClause now_Parse f]"

definition DeleteClauses :: "(string \<Rightarrow> bool) \<Rightarrow> Field \<Rightarrow> SoftDeleteDeleteClause list" where
  "DeleteClauses now_Parse f = [softDeleteClause now_Parse f]"

section \<open>Clauses and statements of the host\<close>

text \<open>
  \<open>clause.Column\<close> with its table and name; \<open>clause.CurrentTable\<close> is the host's
  placeholder for the statement's own table.
\<close>

datatype Column = Column (Column_Table: string) (Column_Name: string)

definition CurrentTable :: string where
  "CurrentTable = ''~~~ct~~~''"

text \<open>The column of an \<open>IN\<close> is one column, or a list of columns for a composite key.\<close>

datatype ColumnRef = OneColumn Column | Columns "Column list"

text \<open>
  Filter expressions (\<open>clause.Expression\<close>): equality, membership, raw SQL with its
  variables, and the two groups.
\<close>

datatype Expression =
    Eq Column val
  | IN ColumnRef "val list"
  | Expr string "val list"
  | AndConditions "Expression list"
  | OrConditions "Expression list"

datatype Assignment = Assignment Column val

text \<open>
  What a \<open>clause.Clause\<close> can hold as its expression: a \<open>Where\<close>, a \<open>Set\<close>, an
  \<open>Update\<close> (modifier and table name), or an expression of another kind. The package
  reads and writes only the name and the expression of a clause.
\<close>

datatype ClauseExpression =
    Where "Expression list"
  | Set "Assignment list"
  | Update string string
  | OtherExpression string

record Clause =
  Name :: string
  Expression :: "ClauseExpression option"

text \<open>The zero value \<open>clause.Clause{}\<close>.\<close>

definition Clause_zero :: Clause where
  "Clause_zero = \<lparr>Name = '''', Expression = None\<rparr>"

record Schema =
  PrimaryFields :: "Field list"
  PrimaryFieldDBNames :: "string list"

text \<open>
  A \<open>reflect.Value\<close>: whether it is addressable, and the Go value it reflects. Values of
  Go's \<open>interface{}\<close> for records (\<open>Dest\<close>, \<open>Model\<close>) are of a type \<open>'obj\<close> whose
  equality is Go's interface comparison; \<open>None\<close> is \<open>nil\<close>.
\<close>

datatype 'obj ReflectValue = reflect_Value (CanAddr: bool) (Interface: 'obj)

text \<open>\<open>reflect.ValueOf\<close> gives a value that is not addressable.\<close>

definition reflect_ValueOf :: "'obj \<Rightarrow> 'obj ReflectValue" where
  "reflect_ValueOf x = reflect_Value False x"

text \<open>
  Of \<open>stmt.DB\<close>: the clock \<open>NowFunc\<close> (read once in a rewrite) and the clause names of
  the update callback, \<open>Callback().Update().Clauses\<close>.
\<close>

record DB =
  NowFunc :: time
  Callback_Update_Clauses :: "string list"

text \<open>
  The \<open>gorm.Statement\<close>. \<open>Unscoped\<close> is the flag that the source reads as
  \<open>stmt.Statement.Unscoped\<close>, and \<open>SQL\<close> the text in the buffer \<open>stmt.SQL\<close>.
  \<open>Context\<close> is the ambient context as a lookup (\<open>None\<close> is \<open>nil\<close>).
  \<open>SetColumnCalls\<close> is the in-memory record as the package sees it: the columns the
  package has set on it through \<open>stmt.SetColumn\<close>, in order, each with its value and
  the \<open>fromCallbacks\<close> flag.
\<close>

record ('k, 'obj) Statement =
  Clauses :: "string \<Rightarrow> Clause option"
  Unscoped :: bool
  SQL :: string
  Table :: string
  Schema :: "Schema option"
  ReflectValue :: "'obj ReflectValue"
  Dest :: "'obj option"
  Model :: "'obj option"
  Context :: "'k \<Rightarrow> val option"
  DB :: DB
  SetColumnCalls :: "(string \<times> val \<times> bool) list"

text \<open>
  What the rewrite of a delete needs from outside the source file: the context key
  \<open>GORM_CTX_DELETED_BY\<close> (a constant of the package declared in another file), the
  reflection \<open>schema.GetIdentityFieldValuesMap\<close> that reads the primary-key rows of a
  reflected value, and the SQL text that \<open>stmt.Build\<close> writes for a list of clause names.
\<close>

record ('k, 'obj) Host =
  GORM_CTX_DELETED_BY :: 'k
  GetIdentityFieldValuesMap :: "'obj ReflectValue \<Rightarrow> Field list \<Rightarrow> val list list"
  Build_SQL :: "(string \<Rightarrow> Clause option) \<Rightarrow> string list \<Rightarrow> string"

subsection \<open>Host operations on a statement\<close>

text \<open>
  \<open>stmt.AddClause(v)\<close> for a clause that is no statement modifier: take the clause
  stored under the name of \<open>v\<close> (the zero clause if there is none), set its name, let
  \<open>v\<close> merge itself into it, store it. A \<open>Where\<close> merges by appending its expressions
  to those of a \<open>Where\<close> already there; a \<open>Set\<close> replaces the expression; an \<open>Update\<close>
  keeps the modifier and the table of an \<open>Update\<close> already there where its own are empty.
\<close>

definition Where_MergeClause :: "Expression list \<Rightarrow> Clause \<Rightarrow> Clause" where
  "Where_MergeClause exprs c =
     (case Expression c of
        Some (Where w) \<Rightarrow> c\<lparr>Expression := Some (Where (w @ exprs))\<rparr>
      | _ \<Rightarrow> c\<lparr>Expression := Some (Where exprs)\<rparr>)"

definition Set_MergeClause :: "Assignment list \<Rightarrow> Clause \<Rightarrow> Clause" where
  "Set_MergeClause assignments c = c\<lparr>Expression := Some (Set assignments)\<rparr>"

definition Update_MergeClause :: "string \<Rightarrow> string \<Rightarrow> Clause \<Rightarrow> Clause" where
  "Update_MergeClause modifier table c =
     (case Expression c of
        Some (Update m t) \<Rightarrow>
          c\<lparr>Expression :=
              Some (Update (if modifier = '''' then m else modifier)
                           (if table = '''' then t else table))\<rparr>
      | _ \<Rightarrow> c\<lparr>Expression := Some (Update modifier table)\<rparr>)"

definition AddClause ::
  "string \<Rightarrow> (Clause \<Rightarrow> Clause) \<Rightarrow> ('k, 'obj) Statement \<Rightarrow> ('k, 'obj) Statement" where
  "AddClause name merge stmt =
     (let c = (case Clauses stmt name of Some c \<Rightarrow> c | None \<Rightarrow> Clause_zero);
          c1 = c\<lparr>Name := name\<rparr>
      in stmt\<lparr>Clauses := (Clauses stmt)(name \<mapsto> merge c1)\<rparr>)"

definition AddClause_Where :: "Expression list \<Rightarrow> ('k, 'obj) Statement \<Rightarrow> ('k, 'obj) Statement" where
  "AddClause_Where exprs = AddClause ''WHERE'' (Where_MergeClause exprs)"

definition AddClause_Set :: "Assignment list \<Rightarrow> ('k, 'obj) Statement \<Rightarrow> ('k, 'obj) Statement" where
  "AddClause_Set assignments = AddClause ''SET'' (Set_MergeClause assignments)"

text \<open>\<open>stmt.AddClauseIfNotExists(clause.Update{})\<close>.\<close>

definition AddClauseIfNotExists_Update :: "('k, 'obj) Statement \<Rightarrow> ('k, 'obj) Statement" where
  "AddClauseIfNotExists_Update stmt =
     (case Clauses stmt ''UPDATE'' of
        None \<Rightarrow> AddClause ''UPDATE'' (Update_MergeClause '''' '''') stmt
      | Some c \<Rightarrow>
          (if Expression c = None then AddClause ''UPDATE'' (Update_MergeClause '''' '''') stmt
           else stmt))"

definition SetColumn ::
  "string \<Rightarrow> val \<Rightarrow> bool \<Rightarrow> ('k, 'obj) Statement \<Rightarrow> ('k, 'obj) Statement" where
  "SetColumn name v fromCallbacks stmt =
     stmt\<lparr>SetColumnCalls := SetColumnCalls stmt @ [(name, v, fromCallbacks)]\<rparr>"

text \<open>
  The host's \<open>Where.Build\<close> changes places before it writes: the first expression of
  the list that is not an \<open>OrConditions\<close> of at most one member (the source's test is
  \<open>!ok || len(v.Exprs) > 1\<close>) changes places with the expression at the head.
\<close>

fun is_short_or :: "Expression \<Rightarrow> bool" where
  "is_short_or (OrConditions es) = (length es \<le> 1)"
| "is_short_or e = False"

fun first_not_short_or :: "Expression list \<Rightarrow> nat option" where
  "first_not_short_or [] = None"
| "first_not_short_or (e # es) =
     (if \<not> is_short_or e then Some 0
      else (case first_not_short_or es of None \<Rightarrow> None | Some i \<Rightarrow> Some (Suc i)))"

definition switch_position :: "Expression list \<Rightarrow> Expression list" where
  "switch_position exprs =
     (case first_not_short_or exprs of
        None \<Rightarrow> exprs
      | Some idx \<Rightarrow>
          (if idx \<noteq> 0 then (exprs[0 := exprs ! idx])[idx := exprs ! 0] else exprs))"

text \<open>
  \<open>Where.Build\<close> works on the slice that it shares with the stored clause, so the
  change of places stays in the statement. For a list that is one \<open>AndConditions\<close>
  it goes on with the members of that group, and the change is made among them.
\<close>

fun Where_Build_stored :: "Expression list \<Rightarrow> Expression list" where
  "Where_Build_stored [AndConditions es] = [AndConditions (switch_position es)]"
| "Where_Build_stored exprs = switch_position exprs"

definition Build_Where :: "('k, 'obj) Statement \<Rightarrow> ('k, 'obj) Statement" where
  "Build_Where stmt =
     (case Clauses stmt ''WHERE'' of
        None \<Rightarrow> stmt
      | Some c \<Rightarrow>
          (case Expression c of
             Some (Where exprs) \<Rightarrow>
               stmt\<lparr>Clauses :=
                 (Clauses stmt)(''WHERE'' \<mapsto> c\<lparr>Expression := Some (Where (Where_Build_stored exprs))\<rparr>)\<rparr>
           | _ \<Rightarrow> stmt))"

text \<open>
  \<open>stmt.Build(names...)\<close> writes the SQL of the named clauses that the statement has
  to the buffer. The text is the host's business; of the clauses of this model only a
  \<open>Where\<close> is changed by being written. (Custom builders, \<open>DB.ClauseBuilders\<close> and
  \<open>Clause.Builder\<close>, are not in the model: every clause is written by its own
  \<open>Build\<close>.)
\<close>

definition Build ::
  "('k, 'obj) Host \<Rightarrow> string list \<Rightarrow> ('k, 'obj) Statement \<Rightarrow> ('k, 'obj) Statement" where
  "Build h names stmt =
     (let stmt1 = (if ''WHERE'' \<in> set names then Build_Where stmt else stmt)
      in stmt1\<lparr>SQL := SQL stmt @ Build_SQL h (Clauses stmt) names\<rparr>)"

text \<open>
  \<open>clause.And\<close>: no expression for no argument, the argument itself when it is the only
  one and no \<open>OrConditions\<close>, and the group otherwise.
\<close>

fun is_OrConditions :: "Expression \<Rightarrow> bool" where
  "is_OrConditions (OrConditions es) = True"
| "is_OrConditions e = False"

definition clause_And :: "Expression list \<Rightarrow> Expression option" where
  "clause_And exprs =
     (case exprs of
        [] \<Rightarrow> None
      | [e] \<Rightarrow> (if \<not> is_OrConditions e then Some e else Some (AndConditions exprs))
      | _ \<Rightarrow> Some (AndConditions exprs))"

text \<open>
  \<open>schema.ToQueryValues\<close>: with one key the column is that key in the table and every
  row gives its first value; with another number of keys the columns are all the keys
  and every row is one value. Reading the first value of an empty row panics (\<open>None\<close>).
\<close>

fun first_values :: "val list list \<Rightarrow> val list option" where
  "first_values [] = Some []"
| "first_values (r # rs) =
     (case r of
        [] \<Rightarrow> None
      | v # _ \<Rightarrow> (case first_values rs of None \<Rightarrow> None | Some vs \<Rightarrow> Some (v # vs)))"

definition ToQueryValues ::
  "string \<Rightarrow> string list \<Rightarrow> val list list \<Rightarrow> (ColumnRef \<times> val list) option" where
  "ToQueryValues table foreignKeys foreignValues =
     (if length foreignKeys = 1 then
        (case first_values foreignValues of
           None \<Rightarrow> None
         | Some queryValues \<Rightarrow> Some (OneColumn (Column table (hd foreignKeys)), queryValues))
      else Some (Columns (map (Column table) foreignKeys), map VRow foreignValues))"

section \<open>The rewrite of a query\<close>

text \<open>
  The loop of \<open>SoftDeleteQueryClause.ModifyStatement\<close> over \<open>where.Exprs\<close>: at the first
  expression that is an \<open>OrConditions\<close> with exactly one member, all the expressions
  are replaced by the one expression \<open>clause.And(where.Exprs...)\<close> and the loop ends.
  The result is \<open>None\<close> when the loop ends without that. (\<open>clause.And\<close> gives no
  expression only for an empty list, which has no element to start the replacement.)
\<close>

fun is_single_or :: "Expression \<Rightarrow> bool" where
  "is_single_or (OrConditions es) = (length es = 1)"
| "is_single_or e = False"

fun wrap_loop :: "Expression list \<Rightarrow> Expression list \<Rightarrow> Expression list option" where
  "wrap_loop [] exprs = None"
| "wrap_loop (expr # rest) exprs =
     (if is_single_or expr then
        Some (case clause_And exprs of Some e \<Rightarrow> [e] | None \<Rightarrow> [])
      else wrap_loop rest exprs)"

definition normalize_where :: "('k, 'obj) Statement \<Rightarrow> ('k, 'obj) Statement" where
  "normalize_where stmt =
     (case Clauses stmt ''WHERE'' of
        None \<Rightarrow> stmt
      | Some c \<Rightarrow>
          (case Expression c of
             Some (Where exprs) \<Rightarrow>
               (if length exprs \<ge> 1 then
                  (case wrap_loop exprs exprs of
                     Some exprs' \<Rightarrow>
                       stmt\<lparr>Clauses := (Clauses stmt)(''WHERE'' \<mapsto> c\<lparr>Expression := Some (Where exprs')\<rparr>)\<rparr>
                   | None \<Rightarrow> stmt)
                else stmt)
           | _ \<Rightarrow> stmt))"

text \<open>The exclusion predicate of a clause: the field's column of the current table
  equals the zero value.\<close>

definition exclusion :: "SoftDeleteClause \<Rightarrow> Expression" where
  "exclusion sd = Eq (Column CurrentTable (DBName (Field sd))) (VNullString (ZeroValue sd))"

definition SoftDeleteQueryClause_ModifyStatement ::
  "SoftDeleteQueryClause \<Rightarrow> ('k, 'obj) Statement \<Rightarrow> ('k, 'obj) Statement" where
  "SoftDeleteQueryClause_ModifyStatement sd stmt =
     (if Clauses stmt ''soft_delete_enabled'' = None \<and> \<not> Unscoped stmt then
        (let stmt1 = normalize_where stmt;
             stmt2 = AddClause_Where [exclusion sd] stmt1
         in stmt2\<lparr>Clauses := (Clauses stmt2)(''soft_delete_enabled'' \<mapsto> Clause_zero)\<rparr>)
      else stmt)"

section \<open>The rewrite of an update\<close>

definition SoftDeleteUpdateClause_ModifyStatement ::
  "SoftDeleteUpdateClause \<Rightarrow> ('k, 'obj) Statement \<Rightarrow> ('k, 'obj) Statement" where
  "SoftDeleteUpdateClause_ModifyStatement sd stmt =
     (if length (SQL stmt) = 0 \<and> \<not> Unscoped stmt then
        SoftDeleteQueryClause_ModifyStatement sd stmt
      else stmt)"

section \<open>The rewrite of a delete\<close>

text \<open>
  The key extraction that the source writes twice, for the reflected value of the
  statement and for the model: read the identity rows, turn them into a column and
  values, and add an \<open>IN\<close> to the filter when there is at least one value.
\<close>

definition add_identity_scope ::
  "('k, 'obj) Host \<Rightarrow> Schema \<Rightarrow> 'obj ReflectValue \<Rightarrow> ('k, 'obj) Statement \<Rightarrow>
     ('k, 'obj) Statement option" where
  "add_identity_scope h sch rv stmt =
     (let queryValues = GetIdentityFieldValuesMap h rv (PrimaryFields sch)
      in case ToQueryValues (Table stmt) (PrimaryFieldDBNames sch) queryValues of
           None \<Rightarrow> None
         | Some (column, values) \<Rightarrow>
             (if length values > 0 then Some (AddClause_Where [IN column values] stmt)
              else Some stmt))"

text \<open>The actor part: the assignments and the statement after it.\<close>

definition bind_actor ::
  "('k, 'obj) Host \<Rightarrow> SoftDeleteDeleteClause \<Rightarrow> Assignment list \<Rightarrow> ('k, 'obj) Statement \<Rightarrow>
     Assignment list \<times> ('k, 'obj) Statement" where
  "bind_actor h sd clauseSet stmt =
     (case ActorField sd of
        None \<Rightarrow> (clauseSet, stmt)
      | Some actorField \<Rightarrow>
          (case Context stmt (GORM_CTX_DELETED_BY h) of
             None \<Rightarrow> (clauseSet, stmt)
           | Some actorName \<Rightarrow>
               (clauseSet @ [Assignment (Column '''' (DBName actorField)) actorName],
                SetColumn (DBName actorField) actorName True stmt)))"

text \<open>The primary-key part; \<open>None\<close> is a panic of \<open>ToQueryValues\<close>.\<close>

definition scope_by_identity ::
  "('k, 'obj) Host \<Rightarrow> ('k, 'obj) Statement \<Rightarrow> ('k, 'obj) Statement option" where
  "scope_by_identity h stmt =
     (case Schema stmt of
        None \<Rightarrow> Some stmt
      | Some sch \<Rightarrow>
          (case add_identity_scope h sch (ReflectValue stmt) stmt of
             None \<Rightarrow> None
           | Some stmt1 \<Rightarrow>
               (case Model stmt1 of
                  None \<Rightarrow> Some stmt1
                | Some model \<Rightarrow>
                    (if CanAddr (ReflectValue stmt1) \<and> Dest stmt1 \<noteq> Model stmt1
                     then add_identity_scope h sch (reflect_ValueOf model) stmt1
                     else Some stmt1))))"

definition SoftDeleteDeleteClause_ModifyStatement ::
  "('k, 'obj) Host \<Rightarrow> SoftDeleteDeleteClause \<Rightarrow> ('k, 'obj) Statement \<Rightarrow>
     ('k, 'obj) Statement option" where
  "SoftDeleteDeleteClause_ModifyStatement h sd stmt =
     (if length (SQL stmt) = 0 \<and> \<not> Unscoped stmt then
        (let curTime = NowFunc (DB stmt);
             clauseSet = [Assignment (Column '''' (DBName (Field sd))) (VTime curTime)];
             (clauseSet1, stmt1) = bind_actor h sd clauseSet stmt;
             stmt2 = AddClause_Set clauseSet1 stmt1;
             stmt3 = SetColumn (DBName (Field sd)) (VTime curTime) True stmt2
         in case scope_by_identity h stmt3 of
              None \<Rightarrow> None
            | Some stmt4 \<Rightarrow>
                (let stmt5 = SoftDeleteQueryClause_ModifyStatement sd stmt4;
                     stmt6 = AddClauseIfNotExists_Update stmt5
                 in Some (Build h (Callback_Update_Clauses (DB stmt6)) stmt6)))
      else Some stmt)"

section \<open>Reading a filter\<close>

text \<open>The expressions of the statement's \<open>WHERE\<close> clause; none when there is no such
  clause or it does not hold a \<open>Where\<close>.\<close>

definition where_exprs :: "('k, 'obj) Statement \<Rightarrow> Expression list" where
  "where_exprs stmt =
     (case Clauses stmt ''WHERE'' of
        None \<Rightarrow> []
      | Some c \<Rightarrow> (case Expression c of Some (Where exprs) \<Rightarrow> exprs | _ \<Rightarrow> []))"

text \<open>The expressions after the loop of the query rewrite.\<close>

definition wrapped :: "Expression list \<Rightarrow> Expression list" where
  "wrapped exprs = (case wrap_loop exprs exprs of Some exprs' \<Rightarrow> exprs' | None \<Rightarrow> exprs)"

text \<open>Every expression that occurs in an expression, itself included, and in a list.\<close>

fun subexprs :: "Expression \<Rightarrow> Expression list" where
  "subexprs (AndConditions es) = AndConditions es # concat (map subexprs es)"
| "subexprs (OrConditions es) = OrConditions es # concat (map subexprs es)"
| "subexprs e = [e]"

definition all_subexprs :: "Expression list \<Rightarrow> Expression list" where
  "all_subexprs es = concat (map subexprs es)"

text \<open>
  The trigger of the normalization in the words of the specification: the top level of
  the filter holds exactly one \<open>OR\<close> group. (The source tests something else, see
  \<open>is_single_or\<close>; the two are compared below.)
\<close>

definition exactly_one_or_group :: "Expression list \<Rightarrow> bool" where
  "exactly_one_or_group exprs = (length (filter is_OrConditions exprs) = 1)"

text \<open>
  The truth of a filter on a row, as the host writes it to SQL. A row is given by the
  truth \<open>\<rho>\<close> of the expressions that are no groups. The host's \<open>buildExprs\<close> writes
  the expressions of a list one after the other; before each but the first it writes
  \<open>OR\<close> when the expression is an \<open>OrConditions\<close> with exactly one member, and the
  list's own joiner otherwise. A group with more than one member is written in
  parentheses, one with a single member as that member. In SQL \<open>AND\<close> binds tighter
  than \<open>OR\<close>: \<open>holds_joined\<close> carries the conjunction read so far and closes it at
  each \<open>OR\<close>.
\<close>

datatype joinCond = AndWithSpace | OrWithSpace

fun holds_joined :: "joinCond \<Rightarrow> bool \<Rightarrow> (bool \<times> bool) list \<Rightarrow> bool" where
  "holds_joined j cur [] = cur"
| "holds_joined j cur ((single_or, v) # rest) =
     (if single_or \<or> j = OrWithSpace then cur \<or> holds_joined j v rest
      else holds_joined j (cur \<and> v) rest)"

fun buildExprs_holds :: "joinCond \<Rightarrow> (bool \<times> bool) list \<Rightarrow> bool" where
  "buildExprs_holds j [] = True"
| "buildExprs_holds j ((single_or, v) # rest) = holds_joined j v rest"

fun holds :: "(Expression \<Rightarrow> bool) \<Rightarrow> Expression \<Rightarrow> bool" where
  "holds \<rho> (AndConditions es) =
     buildExprs_holds AndWithSpace (map (\<lambda>e. (is_single_or e, holds \<rho> e)) es)"
| "holds \<rho> (OrConditions es) =
     buildExprs_holds OrWithSpace (map (\<lambda>e. (is_single_or e, holds \<rho> e)) es)"
| "holds \<rho> e = \<rho> e"

text \<open>
  The host's \<open>Where.Build\<close>: a list that is one \<open>AndConditions\<close> is replaced by the
  members of that group; then the places are changed (\<open>switch_position\<close>); then the
  list is written with the joiner \<open>AND\<close>.
\<close>

fun unwrap_single_and :: "Expression list \<Rightarrow> Expression list" where
  "unwrap_single_and [AndConditions es] = es"
| "unwrap_single_and exprs = exprs"

definition Where_holds :: "(Expression \<Rightarrow> bool) \<Rightarrow> Expression list \<Rightarrow> bool" where
  "Where_holds \<rho> exprs =
     buildExprs_holds AndWithSpace
       (map (\<lambda>e. (is_single_or e, holds \<rho> e)) (switch_position (unwrap_single_and exprs)))"

section \<open>Describing a delete\<close>

text \<open>
  The rows that the reflection gives for the statement and for its model each hold at
  least one value; then \<open>ToQueryValues\<close> does not panic. (The host gives a row one
  value per primary field and keeps a row only if one of its values is not zero, so
  its rows are never empty.)
\<close>

definition identity_rows_ok :: "('k, 'obj) Host \<Rightarrow> ('k, 'obj) Statement \<Rightarrow> bool" where
  "identity_rows_ok h stmt =
     (case Schema stmt of
        None \<Rightarrow> True
      | Some sch \<Rightarrow>
          [] \<notin> set (GetIdentityFieldValuesMap h (ReflectValue stmt) (PrimaryFields sch))
          \<and> (case Model stmt of
               None \<Rightarrow> True
             | Some model \<Rightarrow>
                 [] \<notin> set (GetIdentityFieldValuesMap h (reflect_ValueOf model) (PrimaryFields sch))))"

text \<open>
  The filter expressions of the primary-key part for a schema with the one key column
  \<open>key\<close>: an \<open>IN\<close> over the first values of the rows, when there is a row.
\<close>

definition identity_IN :: "string \<Rightarrow> string \<Rightarrow> val list list \<Rightarrow> Expression list" where
  "identity_IN table key rows =
     (if rows = [] then [] else [IN (OneColumn (Column table key)) (map hd rows)])"

text \<open>
  All of them: the one for the reflected value of the statement, then the one for the
  model, under the guard of the source.
\<close>

definition identity_scope ::
  "('k, 'obj) Host \<Rightarrow> Schema \<Rightarrow> string \<Rightarrow> ('k, 'obj) Statement \<Rightarrow> Expression list" where
  "identity_scope h sch key stmt =
     identity_IN (Table stmt) key
       (GetIdentityFieldValuesMap h (ReflectValue stmt) (PrimaryFields sch))
     @ (case Model stmt of
          None \<Rightarrow> []
        | Some model \<Rightarrow>
            (if CanAddr (ReflectValue stmt) \<and> Dest stmt \<noteq> Model stmt
             then identity_IN (Table stmt) key
                    (GetIdentityFieldValuesMap h (reflect_ValueOf model) (PrimaryFields sch))
             else []))"

text \<open>
  Two statements that differ at most in the \<open>WHERE\<close> clause.
\<close>

definition same_but_where :: "('k, 'obj) Statement \<Rightarrow> ('k, 'obj) Statement \<Rightarrow> bool" where
  "same_but_where s s' \<longleftrightarrow>
     Unscoped s' = Unscoped s \<and> SQL s' = SQL s \<and> Table s' = Table s \<and> Schema s' = Schema s
     \<and> ReflectValue s' = ReflectValue s \<and> Dest s' = Dest s \<and> Model s' = Model s
     \<and> Context s' = Context s \<and> DB s' = DB s \<and> SetColumnCalls s' = SetColumnCalls s
     \<and> (\<forall>name. name \<noteq> ''WHERE'' \<longrightarrow> Clauses s' name = Clauses s name)"

text \<open>
  The statement after the first part of the delete rewrite: the assignments are stored
  as the \<open>SET\<close> clause and the columns are set on the record.
\<close>

definition prepared ::
  "('k, 'obj) Host \<Rightarrow> SoftDeleteDeleteClause \<Rightarrow> ('k, 'obj) Statement \<Rightarrow> ('k, 'obj) Statement" where
  "prepared h sd stmt =
     (let curTime = NowFunc (DB stmt);
          clauseSet = [Assignment (Column '''' (DBName (Field sd))) (VTime curTime)];
          (clauseSet1, stmt1) = bind_actor h sd clauseSet stmt;
          stmt2 = AddClause_Set clauseSet1 stmt1
      in SetColumn (DBName (Field sd)) (VTime curTime) True stmt2)"

section \<open>Concrete inputs\<close>

text \<open>
  A field \<open>deleted_at\<close> with the tags \<open>ZEROVALUE:2000-01-01\<close> and
  \<open>ACTORFIELD:DeletedBy\<close>, whose schema has the sibling field \<open>deleted_by\<close>; a date
  parser that accepts that date only; a toy codec of instants that knows the instant 7.
\<close>

definition deleted_by_field :: Field where
  "deleted_by_field = SchemaField ''deleted_by'' (\<lambda>k. None) (\<lambda>n. None)"

definition deleted_at_field :: Field where
  "deleted_at_field =
     SchemaField ''deleted_at''
       [''ZEROVALUE'' \<mapsto> ''2000-01-01'', ''ACTORFIELD'' \<mapsto> ''DeletedBy'']
       [''DeletedBy'' \<mapsto> deleted_by_field]"

definition parses_2000 :: "string \<Rightarrow> bool" where
  "parses_2000 v = (v = ''2000-01-01'')"


definition toy_Unmarshal :: "string \<Rightarrow> time \<Rightarrow> time \<times> error option" where
  "toy_Unmarshal b t = (if b = ''T7'' then (7, None) else (t, Some ''cannot parse''))"

text \<open>
  A host whose deleted-by key is \<open>deleted_by\<close>; the identity rows of a reflected value
  are given per object (object 1 is a slice of the records 1, 2 and 3, object 2 a record
  with the key 9, any other has no key); the SQL written is not looked at.
\<close>

definition toy_host :: "(string, nat) Host" where
  "toy_host =
     \<lparr>GORM_CTX_DELETED_BY = ''deleted_by'',
      GetIdentityFieldValuesMap =
        (\<lambda>rv fields.
           if Interface rv = 1 then [[VInt 1], [VInt 2], [VInt 3]]
           else if Interface rv = 2 then [[VInt 9]] else []),
      Build_SQL = (\<lambda>cs names. ''UPDATE'')\<rparr>"

definition id_field :: Field where
  "id_field = SchemaField ''id'' (\<lambda>k. None) (\<lambda>n. None)"

definition users_schema :: Schema where
  "users_schema = \<lparr>PrimaryFields = [id_field], PrimaryFieldDBNames = [''id'']\<rparr>"

text \<open>An empty statement on the table \<open>users\<close>, and one with a filter.\<close>

definition empty_stmt :: "(string, nat) Statement" where
  "empty_stmt =
     \<lparr>Clauses = (\<lambda>name. None), Unscoped = False, SQL = '''', Table = ''users'',
      Schema = Some users_schema, ReflectValue = reflect_Value True 1,
      Dest = Some 1, Model = Some 1, Context = (\<lambda>k. None),
      DB = \<lparr>NowFunc = 42, Callback_Update_Clauses = [''UPDATE'', ''SET'', ''WHERE'']\<rparr>,
      SetColumnCalls = []\<rparr>"

definition where_stmt :: "Expression list \<Rightarrow> (string, nat) Statement" where
  "where_stmt exprs =
     empty_stmt\<lparr>Clauses := [''WHERE'' \<mapsto> \<lparr>Name = ''WHERE'', Expression = Some (Where exprs)\<rparr>]\<rparr>"

definition cond_a :: Expression where
  "cond_a = Expr ''a'' []"

definition cond_b :: Expression where
  "cond_b = Expr ''b'' []"

text \<open>
  A statement that carries the mark already and whose filter starts with a
  single-member \<open>OR\<close> group; its record (object 3) has no key.
\<close>

definition marked_stmt :: "(string, nat) Statement" where
  "marked_stmt =
     empty_stmt\<lparr>Clauses :=
         [''WHERE'' \<mapsto> \<lparr>Name = ''WHERE'', Expression = Some (Where [OrConditions [cond_a], cond_b])\<rparr>,
          ''soft_delete_enabled'' \<mapsto> Clause_zero],
       ReflectValue := reflect_Value True 3, Dest := Some 3, Model := Some 3\<rparr>"

section \<open>The filter after a rewrite\<close>

lemma wrap_loop_None: "wrap_loop rest exprs = None \<longleftrightarrow> (\<forall>e \<in> set rest. \<not> is_single_or e)"
  by (induction rest) auto

lemma wrap_loop_Some:
  "wrap_loop rest exprs = Some ys \<Longrightarrow> ys = (case clause_And exprs of Some e \<Rightarrow> [e] | None \<Rightarrow> [])"
  by (induction rest) (auto split: if_splits)

lemma clause_And_single_or:
  assumes "\<exists>e \<in> set exprs. is_single_or e"
  shows "clause_And exprs = Some (AndConditions exprs)"
proof (cases exprs)
  case Nil
  with assms show ?thesis by simp
next
  case (Cons e es)
  show ?thesis
  proof (cases es)
    case Nil
    with Cons assms have "is_single_or e" by simp
    then have "is_OrConditions e" by (cases e) auto
    with Cons Nil show ?thesis by (simp add: clause_And_def)
  next
    case (Cons e' es')
    with \<open>exprs = e # es\<close> show ?thesis by (simp add: clause_And_def)
  qed
qed

lemma wrapped_eq:
  "wrapped exprs = (if \<exists>e \<in> set exprs. is_single_or e then [AndConditions exprs] else exprs)"
proof (cases "wrap_loop exprs exprs")
  case None
  then show ?thesis using wrap_loop_None [of exprs exprs] by (simp add: wrapped_def)
next
  case (Some ys)
  then have ex: "\<exists>e \<in> set exprs. is_single_or e"
    using wrap_loop_None [of exprs exprs] by auto
  from wrap_loop_Some [OF Some] clause_And_single_or [OF ex] Some ex
  show ?thesis by (simp add: wrapped_def)
qed

lemma where_exprs_normalize_where: "where_exprs (normalize_where stmt) = wrapped (where_exprs stmt)"
  by (cases "where_exprs stmt")
    (auto simp: normalize_where_def where_exprs_def wrapped_def
      split: option.splits ClauseExpression.splits)

lemma where_exprs_AddClause_Where:
  "where_exprs (AddClause_Where exprs stmt) = where_exprs stmt @ exprs"
  by (auto simp: AddClause_Where_def AddClause_def Where_MergeClause_def where_exprs_def
      Clause_zero_def Let_def split: option.splits ClauseExpression.splits)

lemma where_exprs_query:
  assumes "Clauses stmt ''soft_delete_enabled'' = None" "\<not> Unscoped stmt"
  shows "where_exprs (SoftDeleteQueryClause_ModifyStatement sd stmt)
       = wrapped (where_exprs stmt) @ [exclusion sd]"
proof -
  have "where_exprs (SoftDeleteQueryClause_ModifyStatement sd stmt)
      = where_exprs (AddClause_Where [exclusion sd] (normalize_where stmt))"
    using assms
    by (simp add: SoftDeleteQueryClause_ModifyStatement_def Let_def where_exprs_def)
  then show ?thesis
    by (simp add: where_exprs_AddClause_Where where_exprs_normalize_where)
qed

lemma query_marks:
  assumes "Clauses stmt ''soft_delete_enabled'' = None" "\<not> Unscoped stmt"
  shows "Clauses (SoftDeleteQueryClause_ModifyStatement sd stmt) ''soft_delete_enabled'' = Some Clause_zero"
  using assms by (simp add: SoftDeleteQueryClause_ModifyStatement_def Let_def)

lemma query_marked_noop:
  "Clauses stmt ''soft_delete_enabled'' \<noteq> None \<Longrightarrow> SoftDeleteQueryClause_ModifyStatement sd stmt = stmt"
  by (auto simp: SoftDeleteQueryClause_ModifyStatement_def)

lemma where_stmt_simps:
  "\<not> Unscoped (where_stmt exprs)" "Clauses (where_stmt exprs) ''soft_delete_enabled'' = None"
  "where_exprs (where_stmt exprs) = exprs"
  by (simp_all add: where_stmt_def empty_stmt_def where_exprs_def)

lemma query_idempotent:
  "SoftDeleteQueryClause_ModifyStatement sd' (SoftDeleteQueryClause_ModifyStatement sd stmt)
     = SoftDeleteQueryClause_ModifyStatement sd stmt"
proof (cases "Clauses stmt ''soft_delete_enabled'' = None \<and> \<not> Unscoped stmt")
  case True
  then show ?thesis using query_marks [of stmt sd] by (simp add: query_marked_noop)
next
  case False
  then have "SoftDeleteQueryClause_ModifyStatement sd stmt = stmt"
    by (auto simp: SoftDeleteQueryClause_ModifyStatement_def)
  moreover from False have "SoftDeleteQueryClause_ModifyStatement sd' stmt = stmt"
    by (auto simp: SoftDeleteQueryClause_ModifyStatement_def)
  ultimately show ?thesis by simp
qed

lemma set_all_subexprs_wrapped:
  "set (all_subexprs (wrapped exprs)) =
     (if \<exists>e \<in> set exprs. is_single_or e then insert (AndConditions exprs) (set (all_subexprs exprs))
      else set (all_subexprs exprs))"
  by (simp add: wrapped_eq all_subexprs_def)

lemma count_all_subexprs_wrapped:
  "count_list (all_subexprs (wrapped exprs)) (exclusion sd) = count_list (all_subexprs exprs) (exclusion sd)"
  by (simp add: wrapped_eq all_subexprs_def exclusion_def)

lemma all_subexprs_append: "all_subexprs (xs @ ys) = all_subexprs xs @ all_subexprs ys"
  by (simp add: all_subexprs_def)

lemma is_single_or_iff: "is_single_or e \<longleftrightarrow> (\<exists>e'. e = OrConditions [e'])"
  by (cases e) (auto simp: length_Suc_conv)

lemma Where_holds_or_pair:
  "Where_holds \<rho> [a, OrConditions [b]] = (holds \<rho> a \<or> holds \<rho> b)"
proof -
  have u: "unwrap_single_and [a, OrConditions [b]] = [a, OrConditions [b]]"
    by simp
  have s: "switch_position [a, OrConditions [b]] = [a, OrConditions [b]]"
    by (simp add: switch_position_def)
  show ?thesis
    unfolding Where_holds_def u s by simp
qed

lemma Where_holds_group_and:
  "Where_holds \<rho> [AndConditions es, e] =
     (holds \<rho> (AndConditions es) \<and> holds \<rho> e)" if "\<not> is_single_or e"
proof -
  have u: "unwrap_single_and [AndConditions es, e] = [AndConditions es, e]"
    by simp
  have s: "switch_position [AndConditions es, e] = [AndConditions es, e]"
    by (simp add: switch_position_def)
  show ?thesis
    unfolding Where_holds_def u s using that by simp
qed

text \<open>
  A filter that starts with a single-member \<open>OR\<close> group and goes on with another
  condition is written by the host with the two in changed places, \<open>b OR a\<close>. The
  query rewrite wraps the list as it stands, and the group is written \<open>(a AND b)\<close>.
\<close>

lemma not_short_or_not_single_or: "\<not> is_short_or e \<Longrightarrow> \<not> is_single_or e"
  by (cases e) simp_all

lemma leading_or_before:
  assumes "\<not> is_short_or b"
  shows "Where_holds \<rho> [OrConditions [a], b] = (holds \<rho> b \<or> holds \<rho> a)"
  using assms not_short_or_not_single_or [OF assms]
  by (simp add: Where_holds_def switch_position_def)

lemma leading_or_after:
  assumes "\<not> is_short_or b"
    and "\<not> Unscoped stmt" and "Clauses stmt ''soft_delete_enabled'' = None"
    and "where_exprs stmt = [OrConditions [a], b]"
  shows "where_exprs (SoftDeleteQueryClause_ModifyStatement sd stmt)
           = [AndConditions [OrConditions [a], b], exclusion sd]"
    and "Where_holds \<rho> (where_exprs (SoftDeleteQueryClause_ModifyStatement sd stmt))
           = ((holds \<rho> a \<and> holds \<rho> b) \<and> holds \<rho> (exclusion sd))"
proof -
  have e: "\<not> is_single_or (exclusion sd)" by (simp add: exclusion_def)
  show w: "where_exprs (SoftDeleteQueryClause_ModifyStatement sd stmt)
        = [AndConditions [OrConditions [a], b], exclusion sd]"
    using assms(2-4) by (simp add: where_exprs_query wrapped_eq)
  show "Where_holds \<rho> (where_exprs (SoftDeleteQueryClause_ModifyStatement sd stmt))
           = ((holds \<rho> a \<and> holds \<rho> b) \<and> holds \<rho> (exclusion sd))"
    using not_short_or_not_single_or [OF assms(1)]
    by (simp add: w Where_holds_group_and [OF e])
qed

section \<open>Statements that are skipped\<close>

text \<open>
  Claim C1. On a statement whose \<open>Unscoped\<close> flag is set, the rewrite of a query, of an
  update and of a delete each return the statement as it was: no clause is added (no
  exclusion predicate, no assignment of the time or of the actor) and no column of the
  in-memory record is set.
\<close>

theorem unscoped_statement_unchanged:
  assumes "Unscoped stmt"
  shows "SoftDeleteQueryClause_ModifyStatement sd stmt = stmt
       \<and> SoftDeleteUpdateClause_ModifyStatement sd stmt = stmt
       \<and> SoftDeleteDeleteClause_ModifyStatement h sd stmt = Some stmt"
  using assms
  by (simp add: SoftDeleteQueryClause_ModifyStatement_def
      SoftDeleteUpdateClause_ModifyStatement_def SoftDeleteDeleteClause_ModifyStatement_def)

theorem unscoped_statement_unchanged_witness:
  "Unscoped (where_stmt [cond_a]\<lparr>Unscoped := True\<rparr>)
   \<and> SoftDeleteQueryClause_ModifyStatement (softDeleteClause parses_2000 deleted_at_field)
        (where_stmt [cond_a]\<lparr>Unscoped := True\<rparr>) = where_stmt [cond_a]\<lparr>Unscoped := True\<rparr>
   \<and> SoftDeleteUpdateClause_ModifyStatement (softDeleteClause parses_2000 deleted_at_field)
        (where_stmt [cond_a]\<lparr>Unscoped := True\<rparr>) = where_stmt [cond_a]\<lparr>Unscoped := True\<rparr>
   \<and> SoftDeleteDeleteClause_ModifyStatement toy_host (softDeleteClause parses_2000 deleted_at_field)
        (where_stmt [cond_a]\<lparr>Unscoped := True\<rparr>) = Some (where_stmt [cond_a]\<lparr>Unscoped := True\<rparr>)"
  using unscoped_statement_unchanged
    [of "where_stmt [cond_a]\<lparr>Unscoped := True\<rparr>" "softDeleteClause parses_2000 deleted_at_field" toy_host]
  by simp

text \<open>
  Claim C9. On a statement whose SQL buffer is not empty, the rewrite of an update and
  the rewrite of a delete return the statement as it was: no clause is added, no column
  is set on the record, and nothing is written to the SQL buffer.
\<close>

theorem rendered_statement_unchanged:
  assumes "SQL stmt \<noteq> []"
  shows "SoftDeleteUpdateClause_ModifyStatement sd stmt = stmt
       \<and> SoftDeleteDeleteClause_ModifyStatement h sd stmt = Some stmt"
  using assms
  by (simp add: SoftDeleteUpdateClause_ModifyStatement_def SoftDeleteDeleteClause_ModifyStatement_def)

theorem rendered_statement_unchanged_witness:
  "SQL (empty_stmt\<lparr>SQL := ''DELETE FROM users''\<rparr>) \<noteq> []
   \<and> SoftDeleteUpdateClause_ModifyStatement (softDeleteClause parses_2000 deleted_at_field)
        (empty_stmt\<lparr>SQL := ''DELETE FROM users''\<rparr>) = empty_stmt\<lparr>SQL := ''DELETE FROM users''\<rparr>
   \<and> SoftDeleteDeleteClause_ModifyStatement toy_host (softDeleteClause parses_2000 deleted_at_field)
        (empty_stmt\<lparr>SQL := ''DELETE FROM users''\<rparr>) = Some (empty_stmt\<lparr>SQL := ''DELETE FROM users''\<rparr>)"
  using rendered_statement_unchanged
    [of "empty_stmt\<lparr>SQL := ''DELETE FROM users''\<rparr>" "softDeleteClause parses_2000 deleted_at_field" toy_host]
  by simp

section \<open>The wrapper as text\<close>

text \<open>
  Claim C10. When \<open>UnmarshalJSON\<close> returns an error, the validity flag of the wrapper is
  what it was before the call; a wrapper that was not valid is still not valid.
\<close>

theorem failed_unmarshal_keeps_valid:
  assumes "snd (UnmarshalJSON json_Unmarshal b n) \<noteq> None"
  shows "Valid (fst (UnmarshalJSON json_Unmarshal b n)) = Valid n"
  using assms
  by (auto simp: UnmarshalJSON_def Let_def split: prod.splits if_splits)

theorem failed_unmarshal_keeps_valid_witness:
  "snd (UnmarshalJSON toy_Unmarshal ''yesterday'' \<lparr>Time = 0, Valid = False\<rparr>) \<noteq> None
   \<and> Valid (fst (UnmarshalJSON toy_Unmarshal ''yesterday'' \<lparr>Time = 0, Valid = False\<rparr>)) = False"
  using failed_unmarshal_keeps_valid [of toy_Unmarshal "''yesterday''" "\<lparr>Time = 0, Valid = False\<rparr>"]
  by (simp add: UnmarshalJSON_def toy_Unmarshal_def)



section \<open>The exclusion predicate\<close>

text \<open>
  Claim C2, as amended. Take a statement that is not unscoped, does not carry the mark
  \<open>soft_delete_enabled\<close> yet, and whose filter does not already mention the exclusion
  predicate. The first run of the query rewrite sets the mark; any later run, of any
  soft-delete clause, returns the statement as it is; and after two runs the filter is
  the filter as it was (wrapped in one group when the normalization applies) followed
  by the exclusion predicate, which occurs in it exactly once.
\<close>

theorem exclusion_injected_once:
  assumes "\<not> Unscoped stmt" and "Clauses stmt ''soft_delete_enabled'' = None"
    and "exclusion sd \<notin> set (all_subexprs (where_exprs stmt))"
  shows "Clauses (SoftDeleteQueryClause_ModifyStatement sd stmt) ''soft_delete_enabled'' \<noteq> None
       \<and> SoftDeleteQueryClause_ModifyStatement sd' (SoftDeleteQueryClause_ModifyStatement sd stmt)
           = SoftDeleteQueryClause_ModifyStatement sd stmt
       \<and> where_exprs (SoftDeleteQueryClause_ModifyStatement sd (SoftDeleteQueryClause_ModifyStatement sd stmt))
           = wrapped (where_exprs stmt) @ [exclusion sd]
       \<and> count_list
           (all_subexprs (where_exprs
              (SoftDeleteQueryClause_ModifyStatement sd (SoftDeleteQueryClause_ModifyStatement sd stmt))))
           (exclusion sd) = 1"
proof -
  have once: "where_exprs (SoftDeleteQueryClause_ModifyStatement sd stmt)
      = wrapped (where_exprs stmt) @ [exclusion sd]"
    using assms(1,2) by (simp add: where_exprs_query)
  have "count_list (all_subexprs (where_exprs stmt)) (exclusion sd) = 0"
    using assms(3) by (simp add: count_list_0_iff)
  then have "count_list (all_subexprs (wrapped (where_exprs stmt) @ [exclusion sd])) (exclusion sd) = 1"
    by (simp add: all_subexprs_append count_all_subexprs_wrapped)
      (simp add: all_subexprs_def exclusion_def)
  with once show ?thesis
    using query_marks [OF assms(2,1), of sd] by (simp add: query_idempotent)
qed


theorem exclusion_injected_once_witness:
  "\<not> Unscoped (where_stmt [cond_a])
   \<and> Clauses (where_stmt [cond_a]) ''soft_delete_enabled'' = None
   \<and> where_exprs
       (SoftDeleteQueryClause_ModifyStatement (softDeleteClause parses_2000 deleted_at_field)
         (SoftDeleteQueryClause_ModifyStatement (softDeleteClause parses_2000 deleted_at_field)
           (where_stmt [cond_a])))
     = [cond_a, exclusion (softDeleteClause parses_2000 deleted_at_field)]"
proof -
  have "exclusion (softDeleteClause parses_2000 deleted_at_field)
      \<notin> set (all_subexprs (where_exprs (where_stmt [cond_a])))"
    by (simp add: where_stmt_simps all_subexprs_def cond_a_def exclusion_def)
  from exclusion_injected_once [OF where_stmt_simps(1,2) this,
      where sd' = "softDeleteClause parses_2000 deleted_at_field"] show ?thesis
    by (auto simp: where_stmt_simps wrapped_eq cond_a_def)
qed


text \<open>
  The claim as it was stated, for every statement, fails on an unscoped statement: after
  two runs its filter has no exclusion predicate, and the first run has set no mark.
\<close>

theorem exclusion_injected_once_counterexample:
  "where_exprs
     (SoftDeleteQueryClause_ModifyStatement (softDeleteClause parses_2000 deleted_at_field)
       (SoftDeleteQueryClause_ModifyStatement (softDeleteClause parses_2000 deleted_at_field)
         (empty_stmt\<lparr>Unscoped := True\<rparr>))) = []
   \<and> Clauses
       (SoftDeleteQueryClause_ModifyStatement (softDeleteClause parses_2000 deleted_at_field)
         (empty_stmt\<lparr>Unscoped := True\<rparr>)) ''soft_delete_enabled'' = None"
  by (simp add: SoftDeleteQueryClause_ModifyStatement_def where_exprs_def empty_stmt_def)

text \<open>
  Claim C4, as amended. On a statement that is in scope, the whole filter is wrapped in
  one \<open>AND\<close> group before the exclusion predicate is appended exactly when at least one
  of its top-level expressions is an \<open>OR\<close> group with exactly one member; otherwise the
  expressions stay as they are and the exclusion predicate is appended.
\<close>

theorem normalization_trigger:
  assumes "\<not> Unscoped stmt" and "Clauses stmt ''soft_delete_enabled'' = None"
  shows "where_exprs (SoftDeleteQueryClause_ModifyStatement sd stmt) =
     (if \<exists>e'. OrConditions [e'] \<in> set (where_exprs stmt)
      then [AndConditions (where_exprs stmt), exclusion sd]
      else where_exprs stmt @ [exclusion sd])"
proof -
  have "(\<exists>e \<in> set (where_exprs stmt). is_single_or e) \<longleftrightarrow> (\<exists>e'. OrConditions [e'] \<in> set (where_exprs stmt))"
    by (auto simp: is_single_or_iff)
  then show ?thesis
    using assms by (simp add: where_exprs_query wrapped_eq)
qed


theorem normalization_trigger_witness:
  "\<not> Unscoped (where_stmt [cond_a, OrConditions [cond_b]])
   \<and> Clauses (where_stmt [cond_a, OrConditions [cond_b]]) ''soft_delete_enabled'' = None
   \<and> where_exprs (SoftDeleteQueryClause_ModifyStatement (softDeleteClause parses_2000 deleted_at_field)
        (where_stmt [cond_a, OrConditions [cond_b]]))
      = [AndConditions [cond_a, OrConditions [cond_b]],
         exclusion (softDeleteClause parses_2000 deleted_at_field)]"
  using normalization_trigger [of "where_stmt [cond_a, OrConditions [cond_b]]"
      "softDeleteClause parses_2000 deleted_at_field"]
  by (auto simp: where_stmt_simps)


text \<open>
  The trigger as the claim stated it, exactly one \<open>OR\<close> group at the top level, is not
  the source's: a filter whose only expression is an \<open>OR\<close> group of two members has
  exactly one group and is not wrapped, and a filter of two \<open>OR\<close> groups of one member
  each has two groups and is wrapped.
\<close>

theorem normalization_trigger_counterexample:
  "exactly_one_or_group [OrConditions [cond_a, cond_b]]
   \<and> where_exprs (SoftDeleteQueryClause_ModifyStatement (softDeleteClause parses_2000 deleted_at_field)
        (where_stmt [OrConditions [cond_a, cond_b]]))
      = [OrConditions [cond_a, cond_b], exclusion (softDeleteClause parses_2000 deleted_at_field)]
   \<and> \<not> exactly_one_or_group [OrConditions [cond_a], OrConditions [cond_b]]
   \<and> where_exprs (SoftDeleteQueryClause_ModifyStatement (softDeleteClause parses_2000 deleted_at_field)
        (where_stmt [OrConditions [cond_a], OrConditions [cond_b]]))
      = [AndConditions [OrConditions [cond_a], OrConditions [cond_b]],
         exclusion (softDeleteClause parses_2000 deleted_at_field)]"
  by (simp add: exactly_one_or_group_def where_exprs_query where_stmt_simps wrapped_eq)

text \<open>
  Claim C3, as amended. Take a statement in scope whose filter is the list of \<open>a\<close>
  followed by the single-member \<open>OR\<close> group of \<open>b\<close>, which the host writes as
  \<open>a OR b\<close>. After the query rewrite the filter is the \<open>AND\<close> group of these two
  expressions, in their order, followed by the predicate that the field's column of
  the current table equals the zero value; on every row it holds exactly when \<open>a\<close>
  or \<open>b\<close> holds and that predicate holds.
\<close>

theorem or_filter_kept_under_exclusion:
  assumes "\<not> Unscoped stmt" and "Clauses stmt ''soft_delete_enabled'' = None"
    and "where_exprs stmt = [a, OrConditions [b]]"
  shows "where_exprs (SoftDeleteQueryClause_ModifyStatement sd stmt)
           = [AndConditions [a, OrConditions [b]],
              Eq (Column CurrentTable (DBName (Field sd))) (VNullString (ZeroValue sd))]
       \<and> Where_holds \<rho> (where_exprs stmt) = (holds \<rho> a \<or> holds \<rho> b)
       \<and> Where_holds \<rho> (where_exprs (SoftDeleteQueryClause_ModifyStatement sd stmt))
           = ((holds \<rho> a \<or> holds \<rho> b)
              \<and> \<rho> (Eq (Column CurrentTable (DBName (Field sd))) (VNullString (ZeroValue sd))))"
proof -
  have w: "where_exprs (SoftDeleteQueryClause_ModifyStatement sd stmt)
      = [AndConditions [a, OrConditions [b]], exclusion sd]"
    using assms by (simp add: where_exprs_query wrapped_eq)
  have e: "\<not> is_single_or (exclusion sd)"
    by (simp add: exclusion_def)
  have g: "holds \<rho> (AndConditions [a, OrConditions [b]]) = (holds \<rho> a \<or> holds \<rho> b)"
    by simp
  have x: "exclusion sd = Eq (Column CurrentTable (DBName (Field sd))) (VNullString (ZeroValue sd))"
    by (simp add: exclusion_def)
  have "Where_holds \<rho> (where_exprs (SoftDeleteQueryClause_ModifyStatement sd stmt))
      = ((holds \<rho> a \<or> holds \<rho> b) \<and> holds \<rho> (exclusion sd))"
    unfolding w Where_holds_group_and [OF e] g by simp
  then show ?thesis
    using w by (simp add: assms(3) Where_holds_or_pair x)
qed

theorem or_filter_kept_under_exclusion_witness:
  "\<not> Unscoped (where_stmt [cond_a, OrConditions [cond_b]])
   \<and> Clauses (where_stmt [cond_a, OrConditions [cond_b]]) ''soft_delete_enabled'' = None
   \<and> where_exprs (where_stmt [cond_a, OrConditions [cond_b]]) = [cond_a, OrConditions [cond_b]]
   \<and> Where_holds (\<lambda>e. e = cond_a)
        (where_exprs (SoftDeleteQueryClause_ModifyStatement (softDeleteClause parses_2000 deleted_at_field)
           (where_stmt [cond_a, OrConditions [cond_b]]))) = False
   \<and> Where_holds (\<lambda>e. e = cond_b \<or> e = exclusion (softDeleteClause parses_2000 deleted_at_field))
        (where_exprs (SoftDeleteQueryClause_ModifyStatement (softDeleteClause parses_2000 deleted_at_field)
           (where_stmt [cond_a, OrConditions [cond_b]]))) = True"
proof -
  have 3: "where_exprs (where_stmt [cond_a, OrConditions [cond_b]]) = [cond_a, OrConditions [cond_b]]"
    by (simp add: where_stmt_simps)
  note t = or_filter_kept_under_exclusion [OF where_stmt_simps(1,2) 3,
      where sd = "softDeleteClause parses_2000 deleted_at_field"]
  from t [where \<rho> = "\<lambda>e. e = cond_a"]
    t [where \<rho> = "\<lambda>e. e = cond_b \<or> e = exclusion (softDeleteClause parses_2000 deleted_at_field)"]
  show ?thesis
    by (auto simp: where_stmt_simps cond_a_def cond_b_def exclusion_def)
qed

text \<open>
  The claim as it was stated, for every filter of the form \<open>a OR b\<close>, fails on the
  list that starts with the single-member \<open>OR\<close> group of \<open>a\<close> and goes on with
  \<open>b\<close>. The host writes that list as \<open>b OR a\<close>: on a row where \<open>a\<close> holds, \<open>b\<close>
  does not and the row is not deleted, the filter holds before the rewrite. The rewrite
  wraps the list as it stands, the group is written \<open>(a AND b)\<close>, and the filter no
  longer holds on that row.
\<close>

theorem or_filter_kept_under_exclusion_counterexample:
  "where_exprs (where_stmt [OrConditions [cond_a], cond_b]) = [OrConditions [cond_a], cond_b]
   \<and> Where_holds (\<lambda>e. e = cond_a \<or> e = exclusion (softDeleteClause parses_2000 deleted_at_field))
        (where_exprs (where_stmt [OrConditions [cond_a], cond_b])) = True
   \<and> where_exprs (SoftDeleteQueryClause_ModifyStatement (softDeleteClause parses_2000 deleted_at_field)
        (where_stmt [OrConditions [cond_a], cond_b]))
      = [AndConditions [OrConditions [cond_a], cond_b],
         exclusion (softDeleteClause parses_2000 deleted_at_field)]
   \<and> Where_holds (\<lambda>e. e = cond_a \<or> e = exclusion (softDeleteClause parses_2000 deleted_at_field))
        (where_exprs (SoftDeleteQueryClause_ModifyStatement (softDeleteClause parses_2000 deleted_at_field)
           (where_stmt [OrConditions [cond_a], cond_b]))) = False"
proof -
  let ?sd = "softDeleteClause parses_2000 deleted_at_field"
  let ?\<rho> = "\<lambda>e. e = cond_a \<or> e = exclusion ?sd"
  have b: "\<not> is_short_or cond_b" by (simp add: cond_b_def)
  have 3: "where_exprs (where_stmt [OrConditions [cond_a], cond_b]) = [OrConditions [cond_a], cond_b]"
    by (simp add: where_stmt_simps)
  note after = leading_or_after [OF b where_stmt_simps(1,2) 3, where sd = ?sd]
  have 1: "Where_holds ?\<rho> [OrConditions [cond_a], cond_b] = True"
    unfolding leading_or_before [OF b] by (simp add: cond_a_def)
  have 2: "Where_holds ?\<rho> (where_exprs (SoftDeleteQueryClause_ModifyStatement ?sd
        (where_stmt [OrConditions [cond_a], cond_b]))) = False"
    unfolding after(2) by (simp add: cond_a_def cond_b_def exclusion_def)
  show ?thesis
    unfolding 3 1 2 using after(1) by simp
qed

section \<open>The zero value\<close>

text \<open>
  Claim C6. The zero value of a field depends on the \<open>ZEROVALUE\<close> tag only: a tag
  that the date parser accepts is kept as it is written, as a valid string; a tag that
  the parser rejects, or no tag, gives the invalid string (SQL \<open>NULL\<close>). There is no
  error result. The clause built for the field carries that value, and the query rewrite
  compares the field's column with it in the predicate it appends.
\<close>

theorem zero_value_resolution:
  "(TagSettings f ''ZEROVALUE'' = Some v \<and> now_Parse v \<longrightarrow>
      parseZeroValueTag now_Parse f = \<lparr>NullString_String = v, NullString_Valid = True\<rparr>)
   \<and> (TagSettings f ''ZEROVALUE'' = Some v \<and> \<not> now_Parse v \<longrightarrow>
      parseZeroValueTag now_Parse f = \<lparr>NullString_String = '''', NullString_Valid = False\<rparr>)
   \<and> (TagSettings f ''ZEROVALUE'' = None \<longrightarrow>
      parseZeroValueTag now_Parse f = \<lparr>NullString_String = '''', NullString_Valid = False\<rparr>)
   \<and> (TagSettings f ''ZEROVALUE'' = TagSettings f' ''ZEROVALUE'' \<longrightarrow>
      parseZeroValueTag now_Parse f = parseZeroValueTag now_Parse f')
   \<and> ZeroValue (softDeleteClause now_Parse f) = parseZeroValueTag now_Parse f
   \<and> (\<not> Unscoped stmt \<and> Clauses stmt ''soft_delete_enabled'' = None \<longrightarrow>
      last (where_exprs (SoftDeleteQueryClause_ModifyStatement (softDeleteClause now_Parse f) stmt))
        = Eq (Column CurrentTable (DBName f)) (VNullString (parseZeroValueTag now_Parse f)))"
proof -
  have sd: "exclusion (softDeleteClause now_Parse f)
      = Eq (Column CurrentTable (DBName f)) (VNullString (parseZeroValueTag now_Parse f))"
    by (simp add: exclusion_def softDeleteClause_def Let_def)
  have z: "ZeroValue (softDeleteClause now_Parse f) = parseZeroValueTag now_Parse f"
    by (simp add: softDeleteClause_def Let_def)
  have p: "TagSettings f ''ZEROVALUE'' = TagSettings f' ''ZEROVALUE'' \<longrightarrow>
      parseZeroValueTag now_Parse f = parseZeroValueTag now_Parse f'"
    by (simp add: parseZeroValueTag_def)
  have l: "\<not> Unscoped stmt \<and> Clauses stmt ''soft_delete_enabled'' = None \<longrightarrow>
      last (where_exprs (SoftDeleteQueryClause_ModifyStatement (softDeleteClause now_Parse f) stmt))
        = Eq (Column CurrentTable (DBName f)) (VNullString (parseZeroValueTag now_Parse f))"
    by (simp add: where_exprs_query sd)
  show ?thesis
    using z p l by (simp add: parseZeroValueTag_def)
qed

theorem zero_value_resolution_witness:
  "TagSettings deleted_at_field ''ZEROVALUE'' = Some ''2000-01-01'' \<and> parses_2000 ''2000-01-01''
   \<and> parseZeroValueTag parses_2000 deleted_at_field
        = \<lparr>NullString_String = ''2000-01-01'', NullString_Valid = True\<rparr>
   \<and> \<not> Unscoped (empty_stmt :: (string, nat) Statement)
   \<and> Clauses (empty_stmt :: (string, nat) Statement) ''soft_delete_enabled'' = None
   \<and> last (where_exprs
        (SoftDeleteQueryClause_ModifyStatement (softDeleteClause parses_2000 deleted_at_field) empty_stmt))
        = Eq (Column CurrentTable ''deleted_at'')
            (VNullString \<lparr>NullString_String = ''2000-01-01'', NullString_Valid = True\<rparr>)"
  using zero_value_resolution
    [of deleted_at_field "''2000-01-01''" parses_2000 deleted_at_field empty_stmt]
  by (simp add: deleted_at_field_def parses_2000_def empty_stmt_def)

section \<open>The rewrite of a delete, step by step\<close>

lemma first_values_ok: "[] \<notin> set rows \<Longrightarrow> first_values rows = Some (map hd rows)"
  by (induction rows) (auto split: list.splits)

lemma ToQueryValues_single:
  "[] \<notin> set rows \<Longrightarrow>
     ToQueryValues table [key] rows = Some (OneColumn (Column table key), map hd rows)"
  by (simp add: ToQueryValues_def first_values_ok)

lemma AddClause_fields:
  "Unscoped (AddClause name merge stmt) = Unscoped stmt"
  "SQL (AddClause name merge stmt) = SQL stmt"
  "Table (AddClause name merge stmt) = Table stmt"
  "Schema (AddClause name merge stmt) = Schema stmt"
  "ReflectValue (AddClause name merge stmt) = ReflectValue stmt"
  "Dest (AddClause name merge stmt) = Dest stmt"
  "Model (AddClause name merge stmt) = Model stmt"
  "Context (AddClause name merge stmt) = Context stmt"
  "DB (AddClause name merge stmt) = DB stmt"
  "SetColumnCalls (AddClause name merge stmt) = SetColumnCalls stmt"
  "name' \<noteq> name \<Longrightarrow> Clauses (AddClause name merge stmt) name' = Clauses stmt name'"
  by (simp_all add: AddClause_def Let_def)

lemma add_identity_scope_single:
  assumes "PrimaryFieldDBNames sch = [key]"
    and "[] \<notin> set (GetIdentityFieldValuesMap h rv (PrimaryFields sch))"
  shows "add_identity_scope h sch rv stmt =
     Some (case identity_IN (Table stmt) key (GetIdentityFieldValuesMap h rv (PrimaryFields sch)) of
             [] \<Rightarrow> stmt
           | e # _ \<Rightarrow> AddClause_Where [e] stmt)"
  using assms
  by (simp add: add_identity_scope_def Let_def ToQueryValues_single identity_IN_def)

lemma same_but_where_refl: "same_but_where s s"
  by (simp add: same_but_where_def)

lemma same_but_where_trans: "same_but_where s s' \<Longrightarrow> same_but_where s' s'' \<Longrightarrow> same_but_where s s''"
  by (simp add: same_but_where_def)

lemma same_but_where_AddClause_Where: "same_but_where s (AddClause_Where exprs s)"
  by (simp add: same_but_where_def AddClause_Where_def AddClause_fields)

lemma add_identity_scope_effect:
  assumes "[] \<notin> set (GetIdentityFieldValuesMap h rv (PrimaryFields sch))"
  shows "\<exists>s'. add_identity_scope h sch rv s = Some s' \<and> same_but_where s s'"
proof (cases "length (PrimaryFieldDBNames sch) = 1")
  case True
  then obtain key where "PrimaryFieldDBNames sch = [key]"
    by (cases "PrimaryFieldDBNames sch") auto
  from add_identity_scope_single [OF this assms] show ?thesis
    by (auto simp: same_but_where_refl same_but_where_AddClause_Where split: list.splits)
next
  case False
  then show ?thesis
    by (simp add: add_identity_scope_def ToQueryValues_def Let_def
        same_but_where_refl same_but_where_AddClause_Where)
qed

lemma add_identity_scope_where:
  assumes "PrimaryFieldDBNames sch = [key]"
    and "[] \<notin> set (GetIdentityFieldValuesMap h rv (PrimaryFields sch))"
  shows "\<exists>s'. add_identity_scope h sch rv s = Some s' \<and> same_but_where s s'
       \<and> where_exprs s' = where_exprs s
            @ identity_IN (Table s) key (GetIdentityFieldValuesMap h rv (PrimaryFields sch))"
  using add_identity_scope_single [OF assms, of s]
  by (auto simp: same_but_where_refl same_but_where_AddClause_Where where_exprs_AddClause_Where
      identity_IN_def split: list.splits)

lemma scope_by_identity_effect:
  assumes "identity_rows_ok h s"
  shows "\<exists>s'. scope_by_identity h s = Some s' \<and> same_but_where s s'"
proof (cases "Schema s")
  case None
  then show ?thesis by (simp add: scope_by_identity_def same_but_where_refl)
next
  case (Some sch)
  with assms have r1: "[] \<notin> set (GetIdentityFieldValuesMap h (ReflectValue s) (PrimaryFields sch))"
    by (simp add: identity_rows_ok_def)
  from add_identity_scope_effect [OF r1, of s] obtain s1
    where s1: "add_identity_scope h sch (ReflectValue s) s = Some s1" "same_but_where s s1"
    by blast
  show ?thesis
  proof (cases "Model s")
    case None
    with s1 Some show ?thesis
      by (auto simp: scope_by_identity_def same_but_where_def)
  next
    case (Some model)
    with assms \<open>Schema s = Some sch\<close>
    have r2: "[] \<notin> set (GetIdentityFieldValuesMap h (reflect_ValueOf model) (PrimaryFields sch))"
      by (simp add: identity_rows_ok_def)
    from add_identity_scope_effect [OF r2, of s1] obtain s2
      where s2: "add_identity_scope h sch (reflect_ValueOf model) s1 = Some s2" "same_but_where s1 s2"
      by blast
    from s1(2) Some have m1: "Model s1 = Some model" "Dest s1 = Dest s" "ReflectValue s1 = ReflectValue s"
      by (simp_all add: same_but_where_def)
    show ?thesis
      using s1 s2 m1 \<open>Schema s = Some sch\<close> same_but_where_trans [OF s1(2) s2(2)]
      by (auto simp: scope_by_identity_def)
  qed
qed

lemma scope_by_identity_where:
  assumes "identity_rows_ok h s" and "Schema s = Some sch" and "PrimaryFieldDBNames sch = [key]"
  shows "\<exists>s'. scope_by_identity h s = Some s' \<and> same_but_where s s'
       \<and> where_exprs s' = where_exprs s @ identity_scope h sch key s"
proof -
  from assms have r1: "[] \<notin> set (GetIdentityFieldValuesMap h (ReflectValue s) (PrimaryFields sch))"
    by (simp add: identity_rows_ok_def)
  from add_identity_scope_where [OF assms(3) r1, of s] obtain s1
    where s1: "add_identity_scope h sch (ReflectValue s) s = Some s1" "same_but_where s s1"
      "where_exprs s1 = where_exprs s
         @ identity_IN (Table s) key (GetIdentityFieldValuesMap h (ReflectValue s) (PrimaryFields sch))"
    by blast
  show ?thesis
  proof (cases "Model s")
    case None
    with s1 assms(2) show ?thesis
      by (auto simp: scope_by_identity_def same_but_where_def identity_scope_def)
  next
    case (Some model)
    with assms
    have r2: "[] \<notin> set (GetIdentityFieldValuesMap h (reflect_ValueOf model) (PrimaryFields sch))"
      by (simp add: identity_rows_ok_def)
    from add_identity_scope_where [OF assms(3) r2, of s1] obtain s2
      where s2: "add_identity_scope h sch (reflect_ValueOf model) s1 = Some s2" "same_but_where s1 s2"
        "where_exprs s2 = where_exprs s1
           @ identity_IN (Table s1) key (GetIdentityFieldValuesMap h (reflect_ValueOf model) (PrimaryFields sch))"
      by blast
    from s1(2) Some have m1: "Model s1 = Some model" "Dest s1 = Dest s" "ReflectValue s1 = ReflectValue s"
        "Table s1 = Table s"
      by (simp_all add: same_but_where_def)
    show ?thesis
      using s1 s2 m1 Some assms(2) same_but_where_trans [OF s1(2) s2(2)]
      by (auto simp: scope_by_identity_def identity_scope_def)
  qed
qed

lemma same_but_where_normalize: "same_but_where s (normalize_where s)"
  by (simp add: same_but_where_def normalize_where_def split: option.splits ClauseExpression.splits)

lemma query_frame:
  "SetColumnCalls (SoftDeleteQueryClause_ModifyStatement sd s) = SetColumnCalls s"
  "Clauses (SoftDeleteQueryClause_ModifyStatement sd s) ''SET'' = Clauses s ''SET''"
  "DB (SoftDeleteQueryClause_ModifyStatement sd s) = DB s"
  using same_but_where_normalize [of s]
  by (simp_all add: SoftDeleteQueryClause_ModifyStatement_def Let_def AddClause_Where_def
      AddClause_fields same_but_where_def)

lemma update_if_not_exists_frame:
  "SetColumnCalls (AddClauseIfNotExists_Update s) = SetColumnCalls s"
  "Clauses (AddClauseIfNotExists_Update s) ''SET'' = Clauses s ''SET''"
  "where_exprs (AddClauseIfNotExists_Update s) = where_exprs s"
  "DB (AddClauseIfNotExists_Update s) = DB s"
  by (simp_all add: AddClauseIfNotExists_Update_def AddClause_fields where_exprs_def
      split: option.splits)

lemma first_not_short_or_less: "first_not_short_or exprs = Some i \<Longrightarrow> i < length exprs"
  by (induction exprs arbitrary: i) (auto split: if_splits option.splits)

lemma set_switch_position: "set (switch_position exprs) = set exprs"
proof (cases "first_not_short_or exprs")
  case None
  then show ?thesis by (simp add: switch_position_def)
next
  case (Some i)
  then have "i < length exprs" by (rule first_not_short_or_less)
  then have "set (exprs[0 := exprs ! i, i := exprs ! 0]) = set exprs"
    by (intro set_swap) auto
  with Some show ?thesis by (simp add: switch_position_def)
qed

lemma set_all_subexprs: "set (all_subexprs exprs) = (\<Union>e \<in> set exprs. set (subexprs e))"
  by (simp add: all_subexprs_def)

lemma Where_Build_stored_keeps:
  assumes "\<forall>es. e \<noteq> AndConditions es"
  shows "e \<in> set (all_subexprs (Where_Build_stored exprs)) \<longleftrightarrow> e \<in> set (all_subexprs exprs)"
proof (induction exprs rule: Where_Build_stored.induct)
  case (1 es)
  have "set (all_subexprs (switch_position es)) = set (all_subexprs es)"
    by (simp add: set_all_subexprs set_switch_position)
  with assms show ?case by (simp add: all_subexprs_def)
qed (simp_all only: Where_Build_stored.simps set_all_subexprs set_switch_position)

lemma Build_frame:
  "SetColumnCalls (Build h names s) = SetColumnCalls s"
  "name \<noteq> ''WHERE'' \<Longrightarrow> Clauses (Build h names s) name = Clauses s name"
  "where_exprs (Build h names s) =
     (if ''WHERE'' \<in> set names then Where_Build_stored (where_exprs s) else where_exprs s)"
  by (auto simp: Build_def Build_Where_def where_exprs_def Let_def switch_position_def
      split: option.splits ClauseExpression.splits)

lemma delete_unfold:
  assumes "SQL stmt = []" and "\<not> Unscoped stmt"
  shows "SoftDeleteDeleteClause_ModifyStatement h sd stmt =
     (case scope_by_identity h (prepared h sd stmt) of
        None \<Rightarrow> None
      | Some stmt4 \<Rightarrow>
          Some (Build h (Callback_Update_Clauses (DB stmt4))
                 (AddClauseIfNotExists_Update (SoftDeleteQueryClause_ModifyStatement sd stmt4))))"
  using assms
  by (simp add: SoftDeleteDeleteClause_ModifyStatement_def prepared_def Let_def
      query_frame update_if_not_exists_frame split: prod.splits option.splits)

lemma prepared_fields:
  "Unscoped (prepared h sd stmt) = Unscoped stmt"
  "Table (prepared h sd stmt) = Table stmt"
  "Schema (prepared h sd stmt) = Schema stmt"
  "ReflectValue (prepared h sd stmt) = ReflectValue stmt"
  "Dest (prepared h sd stmt) = Dest stmt"
  "Model (prepared h sd stmt) = Model stmt"
  "DB (prepared h sd stmt) = DB stmt"
  "Clauses (prepared h sd stmt) ''soft_delete_enabled'' = Clauses stmt ''soft_delete_enabled''"
  "where_exprs (prepared h sd stmt) = where_exprs stmt"
  by (simp_all add: prepared_def Let_def bind_actor_def SetColumn_def AddClause_Set_def
      AddClause_fields where_exprs_def split: prod.splits option.splits)

lemma prepared_actor:
  assumes "ActorField sd = Some actorField"
    and "Context stmt (GORM_CTX_DELETED_BY h) = Some actorName"
  shows "Clauses (prepared h sd stmt) ''SET'' =
           Some \<lparr>Name = ''SET'', Expression = Some (Set
             [Assignment (Column '''' (DBName (Field sd))) (VTime (NowFunc (DB stmt))),
              Assignment (Column '''' (DBName actorField)) actorName])\<rparr>"
    and "SetColumnCalls (prepared h sd stmt) = SetColumnCalls stmt
           @ [(DBName actorField, actorName, True),
              (DBName (Field sd), VTime (NowFunc (DB stmt)), True)]"
  using assms
  by (simp_all add: prepared_def Let_def bind_actor_def SetColumn_def AddClause_Set_def
      AddClause_def Set_MergeClause_def Clause_zero_def split: option.splits)

lemma prepared_no_actor:
  assumes "ActorField sd = None \<or> Context stmt (GORM_CTX_DELETED_BY h) = None"
  shows "Clauses (prepared h sd stmt) ''SET'' =
           Some \<lparr>Name = ''SET'', Expression = Some (Set
             [Assignment (Column '''' (DBName (Field sd))) (VTime (NowFunc (DB stmt)))])\<rparr>"
    and "SetColumnCalls (prepared h sd stmt) = SetColumnCalls stmt
           @ [(DBName (Field sd), VTime (NowFunc (DB stmt)), True)]"
  using assms
  by (auto simp: prepared_def Let_def bind_actor_def SetColumn_def AddClause_Set_def
      AddClause_def Set_MergeClause_def Clause_zero_def split: option.splits)

lemma identity_rows_ok_prepared: "identity_rows_ok h (prepared h' sd stmt) = identity_rows_ok h stmt"
  by (simp add: identity_rows_ok_def prepared_fields split: option.splits)

lemma identity_scope_prepared: "identity_scope h sch key (prepared h' sd stmt) = identity_scope h sch key stmt"
  by (simp add: identity_scope_def prepared_fields split: option.splits)

lemma delete_effect:
  assumes "SQL stmt = []" and "\<not> Unscoped stmt" and "identity_rows_ok h stmt"
  shows "\<exists>stmt'. SoftDeleteDeleteClause_ModifyStatement h sd stmt = Some stmt'
       \<and> Clauses stmt' ''SET'' = Clauses (prepared h sd stmt) ''SET''
       \<and> SetColumnCalls stmt' = SetColumnCalls (prepared h sd stmt)"
proof -
  from scope_by_identity_effect [of h "prepared h sd stmt"] assms(3)
  obtain s4 where s4: "scope_by_identity h (prepared h sd stmt) = Some s4"
    "same_but_where (prepared h sd stmt) s4"
    by (auto simp: identity_rows_ok_prepared)
  from s4(2) have "Clauses s4 ''SET'' = Clauses (prepared h sd stmt) ''SET''"
    "SetColumnCalls s4 = SetColumnCalls (prepared h sd stmt)"
    by (simp_all add: same_but_where_def)
  then show ?thesis
    using s4(1) by (simp add: delete_unfold [OF assms(1,2)] Build_frame
        update_if_not_exists_frame query_frame)
qed

lemma delete_where_exprs:
  assumes "SQL stmt = []" and "\<not> Unscoped stmt" and "identity_rows_ok h stmt"
    and "Schema stmt = Some sch" and "PrimaryFieldDBNames sch = [key]"
  shows "\<exists>stmt'. SoftDeleteDeleteClause_ModifyStatement h sd stmt = Some stmt'
       \<and> where_exprs stmt' =
           (let exprs =
              (if Clauses stmt ''soft_delete_enabled'' = None
               then wrapped (where_exprs stmt @ identity_scope h sch key stmt) @ [exclusion sd]
               else where_exprs stmt @ identity_scope h sch key stmt)
            in if ''WHERE'' \<in> set (Callback_Update_Clauses (DB stmt))
               then Where_Build_stored exprs else exprs)"
proof -
  from scope_by_identity_where [of h "prepared h sd stmt" sch key] assms(3-5)
  obtain s4 where s4: "scope_by_identity h (prepared h sd stmt) = Some s4"
    "same_but_where (prepared h sd stmt) s4"
    "where_exprs s4 = where_exprs stmt @ identity_scope h sch key stmt"
    by (auto simp: identity_rows_ok_prepared identity_scope_prepared prepared_fields)
  let ?s5 = "SoftDeleteQueryClause_ModifyStatement sd s4"
  from s4(2) assms(2) have f: "\<not> Unscoped s4"
    "Clauses s4 ''soft_delete_enabled'' = Clauses stmt ''soft_delete_enabled''"
    "DB s4 = DB stmt"
    by (simp_all add: same_but_where_def prepared_fields)
  have w: "where_exprs ?s5 =
      (if Clauses stmt ''soft_delete_enabled'' = None
       then wrapped (where_exprs stmt @ identity_scope h sch key stmt) @ [exclusion sd]
       else where_exprs stmt @ identity_scope h sch key stmt)"
  proof (cases "Clauses stmt ''soft_delete_enabled'' = None")
    case True
    with f show ?thesis by (simp add: where_exprs_query s4(3))
  next
    case False
    with f have "?s5 = s4" by (simp add: query_marked_noop)
    with False show ?thesis by (auto simp: s4(3))
  qed
  have "SoftDeleteDeleteClause_ModifyStatement h sd stmt =
      Some (Build h (Callback_Update_Clauses (DB stmt)) (AddClauseIfNotExists_Update ?s5))"
    using s4(1) f(3) by (simp add: delete_unfold [OF assms(1,2)])
  moreover have "where_exprs (Build h (Callback_Update_Clauses (DB stmt)) (AddClauseIfNotExists_Update ?s5))
      = (if ''WHERE'' \<in> set (Callback_Update_Clauses (DB stmt))
         then Where_Build_stored (where_exprs ?s5) else where_exprs ?s5)"
    by (simp add: Build_frame update_if_not_exists_frame)
  ultimately show ?thesis
    unfolding w by (simp add: Let_def)
qed

lemma set_subset_all_subexprs: "set xs \<subseteq> set (all_subexprs xs)"
proof
  fix e assume "e \<in> set xs"
  moreover have "e \<in> set (subexprs e)" by (cases e) simp_all
  ultimately show "e \<in> set (all_subexprs xs)" by (auto simp: all_subexprs_def)
qed

lemma toy_stmt_simps:
  "SQL (empty_stmt\<lparr>ReflectValue := rv, Dest := d, Model := m, Context := c\<rparr>) = []"
  "\<not> Unscoped (empty_stmt\<lparr>ReflectValue := rv, Dest := d, Model := m, Context := c\<rparr>)"
  "identity_rows_ok toy_host (empty_stmt\<lparr>ReflectValue := rv, Dest := d, Model := m, Context := c\<rparr>)"
  "Schema (empty_stmt\<lparr>ReflectValue := rv, Dest := d, Model := m, Context := c\<rparr>) = Some users_schema"
  by (simp_all add: empty_stmt_def users_schema_def identity_rows_ok_def toy_host_def
      split: option.splits)

lemma users_schema_key: "PrimaryFieldDBNames users_schema = [''id'']"
  by (simp add: users_schema_def)

lemma marked_stmt_simps:
  "SQL marked_stmt = []"
  "\<not> Unscoped marked_stmt"
  "identity_rows_ok toy_host marked_stmt"
  "Schema marked_stmt = Some users_schema"
  by (simp_all add: marked_stmt_def empty_stmt_def users_schema_def identity_rows_ok_def
      toy_host_def reflect_ValueOf_def)

section \<open>Primary keys and the actor\<close>

text \<open>
  Claim C7, as amended. Take a delete rewrite that is not skipped, on a statement with
  a schema of one key column whose identity rows are well formed. The rewrite returns.
  The filter it leaves is the filter before, followed by the \<open>IN\<close> predicates of the
  primary-key part, then (unless the mark was set before) wrapped if the normalization
  applies and followed by the exclusion predicate, and at last with the places changed
  as the host's writer of \<open>WHERE\<close> leaves them, when the update callback writes that
  clause. When the reflected value has identity rows, an \<open>IN\<close> over their keys on the
  key column of the statement's table occurs in the filter. When there is a model, the
  reflected value is addressable, the destination is not the model, and the model has
  identity rows, a second \<open>IN\<close> over the model's keys occurs in it; in every other
  case no second \<open>IN\<close> is added.
\<close>

theorem delete_scopes_by_identity:
  assumes "SQL stmt = []" and "\<not> Unscoped stmt" and "identity_rows_ok h stmt"
    and "Schema stmt = Some sch" and "PrimaryFieldDBNames sch = [key]"
  shows "\<exists>stmt'. SoftDeleteDeleteClause_ModifyStatement h sd stmt = Some stmt'
       \<and> where_exprs stmt' =
           (let exprs =
              (if Clauses stmt ''soft_delete_enabled'' = None
               then wrapped (where_exprs stmt @ identity_scope h sch key stmt)
                    @ [Eq (Column CurrentTable (DBName (Field sd))) (VNullString (ZeroValue sd))]
               else where_exprs stmt @ identity_scope h sch key stmt)
            in if ''WHERE'' \<in> set (Callback_Update_Clauses (DB stmt))
               then Where_Build_stored exprs else exprs)
       \<and> (GetIdentityFieldValuesMap h (ReflectValue stmt) (PrimaryFields sch) \<noteq> [] \<longrightarrow>
            IN (OneColumn (Column (Table stmt) key))
               (map hd (GetIdentityFieldValuesMap h (ReflectValue stmt) (PrimaryFields sch)))
              \<in> set (all_subexprs (where_exprs stmt')))
       \<and> (\<forall>model. Model stmt = Some model \<and> CanAddr (ReflectValue stmt) \<and> Dest stmt \<noteq> Model stmt
              \<and> GetIdentityFieldValuesMap h (reflect_ValueOf model) (PrimaryFields sch) \<noteq> [] \<longrightarrow>
            IN (OneColumn (Column (Table stmt) key))
               (map hd (GetIdentityFieldValuesMap h (reflect_ValueOf model) (PrimaryFields sch)))
              \<in> set (all_subexprs (where_exprs stmt')))"
proof -
  define exprs where "exprs =
     (if Clauses stmt ''soft_delete_enabled'' = None
      then wrapped (where_exprs stmt @ identity_scope h sch key stmt) @ [exclusion sd]
      else where_exprs stmt @ identity_scope h sch key stmt)"
  from delete_where_exprs [OF assms, of sd] obtain stmt'
    where d: "SoftDeleteDeleteClause_ModifyStatement h sd stmt = Some stmt'"
      "where_exprs stmt' =
         (if ''WHERE'' \<in> set (Callback_Update_Clauses (DB stmt))
          then Where_Build_stored exprs else exprs)"
    by (auto simp: Let_def exprs_def)
  have "set (identity_scope h sch key stmt) \<subseteq> set (all_subexprs exprs)"
    using set_subset_all_subexprs [of "where_exprs stmt @ identity_scope h sch key stmt"]
    by (auto simp: exprs_def set_all_subexprs_wrapped all_subexprs_append)
  then have sub: "IN c vs \<in> set (identity_scope h sch key stmt) \<Longrightarrow>
      IN c vs \<in> set (all_subexprs (where_exprs stmt'))" for c vs
    using Where_Build_stored_keeps [of "IN c vs" exprs] by (auto simp: d(2))
  have 1: "GetIdentityFieldValuesMap h (ReflectValue stmt) (PrimaryFields sch) \<noteq> [] \<longrightarrow>
      IN (OneColumn (Column (Table stmt) key))
         (map hd (GetIdentityFieldValuesMap h (ReflectValue stmt) (PrimaryFields sch)))
        \<in> set (all_subexprs (where_exprs stmt'))"
    by (auto intro!: sub simp: identity_scope_def identity_IN_def)
  have 2: "\<forall>model. Model stmt = Some model \<and> CanAddr (ReflectValue stmt) \<and> Dest stmt \<noteq> Model stmt
        \<and> GetIdentityFieldValuesMap h (reflect_ValueOf model) (PrimaryFields sch) \<noteq> [] \<longrightarrow>
      IN (OneColumn (Column (Table stmt) key))
         (map hd (GetIdentityFieldValuesMap h (reflect_ValueOf model) (PrimaryFields sch)))
        \<in> set (all_subexprs (where_exprs stmt'))"
    by (auto intro!: sub simp: identity_scope_def identity_IN_def)
  have "where_exprs stmt' =
      (let exprs =
         (if Clauses stmt ''soft_delete_enabled'' = None
          then wrapped (where_exprs stmt @ identity_scope h sch key stmt)
               @ [Eq (Column CurrentTable (DBName (Field sd))) (VNullString (ZeroValue sd))]
          else where_exprs stmt @ identity_scope h sch key stmt)
       in if ''WHERE'' \<in> set (Callback_Update_Clauses (DB stmt))
          then Where_Build_stored exprs else exprs)"
    using d(2) by (simp add: exprs_def exclusion_def Let_def)
  with d(1) 1 2 show ?thesis by blast
qed

theorem delete_scopes_by_identity_witness:
  "map_option where_exprs
     (SoftDeleteDeleteClause_ModifyStatement toy_host (softDeleteClause parses_2000 deleted_at_field)
        (empty_stmt\<lparr>ReflectValue := reflect_Value True 1, Dest := Some 1, Model := Some 2,
           Context := (\<lambda>k. None)\<rparr>))
   = Some [IN (OneColumn (Column ''users'' ''id'')) [VInt 1, VInt 2, VInt 3],
           IN (OneColumn (Column ''users'' ''id'')) [VInt 9],
           Eq (Column CurrentTable ''deleted_at'')
              (VNullString \<lparr>NullString_String = ''2000-01-01'', NullString_Valid = True\<rparr>)]
   \<and> where_exprs marked_stmt = [OrConditions [cond_a], cond_b]
   \<and> map_option where_exprs
       (SoftDeleteDeleteClause_ModifyStatement toy_host (softDeleteClause parses_2000 deleted_at_field)
          marked_stmt)
     = Some [cond_b, OrConditions [cond_a]]"
  using delete_scopes_by_identity
    [OF toy_stmt_simps [where rv = "reflect_Value True 1" and d = "Some 1" and m = "Some 2" and c = "\<lambda>k. None"] users_schema_key,
      where sd = "softDeleteClause parses_2000 deleted_at_field"]
    delete_scopes_by_identity
    [OF marked_stmt_simps users_schema_key, where sd = "softDeleteClause parses_2000 deleted_at_field"]
  by (auto simp: identity_scope_def identity_IN_def toy_host_def empty_stmt_def where_exprs_def
      reflect_ValueOf_def wrapped_eq switch_position_def Let_def softDeleteClause_def
      deleted_at_field_def parseZeroValueTag_def parses_2000_def marked_stmt_def
      cond_a_def cond_b_def)

text \<open>
  The claim as it was stated adds the second \<open>IN\<close> whenever destination and model
  are both there and distinct. With a reflected value that is not addressable none is
  added although the model has the key 9; with an addressable one none is added when
  the model has no key (and, here, the destination has none either).
\<close>

theorem delete_scopes_by_identity_counterexample:
  "Dest (empty_stmt\<lparr>ReflectValue := reflect_Value False 1, Dest := Some 1, Model := Some 2,
           Context := (\<lambda>k. None)\<rparr> :: (string, nat) Statement) = Some 1
   \<and> Model (empty_stmt\<lparr>ReflectValue := reflect_Value False 1, Dest := Some 1, Model := Some 2,
           Context := (\<lambda>k. None)\<rparr> :: (string, nat) Statement) = Some 2
   \<and> GetIdentityFieldValuesMap toy_host (reflect_ValueOf 2) (PrimaryFields users_schema) = [[VInt 9]]
   \<and> map_option where_exprs
       (SoftDeleteDeleteClause_ModifyStatement toy_host (softDeleteClause parses_2000 deleted_at_field)
          (empty_stmt\<lparr>ReflectValue := reflect_Value False 1, Dest := Some 1, Model := Some 2,
             Context := (\<lambda>k. None)\<rparr>))
     = Some [IN (OneColumn (Column ''users'' ''id'')) [VInt 1, VInt 2, VInt 3],
             exclusion (softDeleteClause parses_2000 deleted_at_field)]
   \<and> Dest (empty_stmt\<lparr>ReflectValue := reflect_Value True 3, Dest := Some 3, Model := Some 4,
           Context := (\<lambda>k. None)\<rparr> :: (string, nat) Statement) = Some 3
   \<and> Model (empty_stmt\<lparr>ReflectValue := reflect_Value True 3, Dest := Some 3, Model := Some 4,
           Context := (\<lambda>k. None)\<rparr> :: (string, nat) Statement) = Some 4
   \<and> map_option where_exprs
       (SoftDeleteDeleteClause_ModifyStatement toy_host (softDeleteClause parses_2000 deleted_at_field)
          (empty_stmt\<lparr>ReflectValue := reflect_Value True 3, Dest := Some 3, Model := Some 4,
             Context := (\<lambda>k. None)\<rparr>))
     = Some [exclusion (softDeleteClause parses_2000 deleted_at_field)]"
  using delete_where_exprs
    [OF toy_stmt_simps [where rv = "reflect_Value False 1" and d = "Some 1" and m = "Some 2" and c = "\<lambda>k. None"] users_schema_key,
      where sd = "softDeleteClause parses_2000 deleted_at_field"]
    delete_where_exprs
    [OF toy_stmt_simps [where rv = "reflect_Value True 3" and d = "Some 3" and m = "Some 4" and c = "\<lambda>k. None"] users_schema_key,
      where sd = "softDeleteClause parses_2000 deleted_at_field"]
  by (auto simp: identity_scope_def identity_IN_def toy_host_def empty_stmt_def where_exprs_def
      reflect_ValueOf_def wrapped_eq users_schema_def switch_position_def Let_def exclusion_def)

text \<open>
  Claim C8. Take a delete rewrite that is not skipped, with an actor field configured.
  If the context has a value under the deleted-by key, the \<open>SET\<close> clause afterwards
  assigns the deletion time to the field's column and that value to the actor's
  column, and the actor's column, then the field's column, are set on the record. If
  the context has no value under the key, the \<open>SET\<close> clause assigns the deletion time
  only and only the field's column is set on the record. In both cases the rewrite
  returns.
\<close>

theorem delete_binds_actor:
  assumes "SQL stmt = []" and "\<not> Unscoped stmt" and "identity_rows_ok h stmt"
    and "ActorField sd = Some actorField"
  shows "\<exists>stmt'. SoftDeleteDeleteClause_ModifyStatement h sd stmt = Some stmt'
       \<and> (\<forall>actorName. Context stmt (GORM_CTX_DELETED_BY h) = Some actorName \<longrightarrow>
            Clauses stmt' ''SET'' =
              Some \<lparr>Name = ''SET'', Expression = Some (Set
                [Assignment (Column '''' (DBName (Field sd))) (VTime (NowFunc (DB stmt))),
                 Assignment (Column '''' (DBName actorField)) actorName])\<rparr>
            \<and> SetColumnCalls stmt' = SetColumnCalls stmt
                @ [(DBName actorField, actorName, True),
                   (DBName (Field sd), VTime (NowFunc (DB stmt)), True)])
       \<and> (Context stmt (GORM_CTX_DELETED_BY h) = None \<longrightarrow>
            Clauses stmt' ''SET'' =
              Some \<lparr>Name = ''SET'', Expression = Some (Set
                [Assignment (Column '''' (DBName (Field sd))) (VTime (NowFunc (DB stmt)))])\<rparr>
            \<and> SetColumnCalls stmt' = SetColumnCalls stmt
                @ [(DBName (Field sd), VTime (NowFunc (DB stmt)), True)])"
proof -
  from delete_effect [OF assms(1-3), of sd] obtain stmt'
    where d: "SoftDeleteDeleteClause_ModifyStatement h sd stmt = Some stmt'"
      "Clauses stmt' ''SET'' = Clauses (prepared h sd stmt) ''SET''"
      "SetColumnCalls stmt' = SetColumnCalls (prepared h sd stmt)"
    by blast
  show ?thesis
    using d prepared_actor [OF assms(4), of stmt h] prepared_no_actor [of sd stmt h]
    by auto
qed

theorem delete_binds_actor_witness:
  "ActorField (softDeleteClause parses_2000 deleted_at_field) = Some deleted_by_field
   \<and> map_option (\<lambda>s. (Clauses s ''SET'', SetColumnCalls s))
       (SoftDeleteDeleteClause_ModifyStatement toy_host (softDeleteClause parses_2000 deleted_at_field)
          (empty_stmt\<lparr>ReflectValue := reflect_Value True 1, Dest := Some 1, Model := Some 1,
             Context := [''deleted_by'' \<mapsto> VString ''alice'']\<rparr>))
     = Some (Some \<lparr>Name = ''SET'', Expression = Some (Set
                [Assignment (Column '''' ''deleted_at'') (VTime 42),
                 Assignment (Column '''' ''deleted_by'') (VString ''alice'')])\<rparr>,
             [(''deleted_by'', VString ''alice'', True), (''deleted_at'', VTime 42, True)])
   \<and> map_option (\<lambda>s. (Clauses s ''SET'', SetColumnCalls s))
       (SoftDeleteDeleteClause_ModifyStatement toy_host (softDeleteClause parses_2000 deleted_at_field)
          (empty_stmt\<lparr>ReflectValue := reflect_Value True 1, Dest := Some 1, Model := Some 1,
             Context := (\<lambda>k. None)\<rparr>))
     = Some (Some \<lparr>Name = ''SET'', Expression = Some (Set
                [Assignment (Column '''' ''deleted_at'') (VTime 42)])\<rparr>,
             [(''deleted_at'', VTime 42, True)])"
proof -
  have a: "ActorField (softDeleteClause parses_2000 deleted_at_field) = Some deleted_by_field"
    by (simp add: softDeleteClause_def deleted_at_field_def Let_def)
  have f: "DBName (Field (softDeleteClause parses_2000 deleted_at_field)) = ''deleted_at''"
    "DBName deleted_by_field = ''deleted_by''"
    by (simp_all add: softDeleteClause_def deleted_at_field_def deleted_by_field_def Let_def)
  note t1 = toy_stmt_simps [where rv = "reflect_Value True 1" and d = "Some 1" and m = "Some 1" and c = "[''deleted_by'' \<mapsto> VString ''alice'']"]
  note t2 = toy_stmt_simps [where rv = "reflect_Value True 1" and d = "Some 1" and m = "Some 1" and c = "\<lambda>k. None"]
  from delete_binds_actor [OF t1(1,2,3) a] delete_binds_actor [OF t2(1,2,3) a]
  show ?thesis
    by (auto simp: a f toy_host_def empty_stmt_def)
qed

end
